theory Spec2Isabelle
  imports Main "HOL-Library.AList"
begin

section \<open>Python values\<close>

text \<open>
  The converter works on the values that \<^verbatim>\<open>json.load\<close> and \<^verbatim>\<open>response.json()\<close>
  produce.  A Python \<^verbatim>\<open>float\<close> is an IEEE-754 binary64 number: \<open>Finite s m e\<close> stands for
  \<open>(-1)^s * m * 2^e\<close>.  A \<^verbatim>\<open>dict\<close> is an association list in insertion order, read
  by its first entry for a key.  Strings are byte strings (UTF-8).
\<close>

datatype double = Finite bool nat int | Infinity bool | NaN

datatype pyval =
    PyNone
  | PyBool bool
  | PyInt int
  | PyFloat double
  | PyStr string
  | PyList "pyval list"
  | PyDict "(string \<times> pyval) list"

datatype py_error =
    KeyError string
  | TypeError
  | ValueError string
  | OverflowError
  | ZeroDivisionError

text \<open>Truth value of an object, as \<^verbatim>\<open>if x:\<close> tests it.\<close>

fun double_is_zero :: "double \<Rightarrow> bool" where
  "double_is_zero (Finite s m e) = (m = 0)"
| "double_is_zero (Infinity s) = False"
| "double_is_zero NaN = False"

fun truthy :: "pyval \<Rightarrow> bool" where
  "truthy PyNone = False"
| "truthy (PyBool b) = b"
| "truthy (PyInt i) = (i \<noteq> 0)"
| "truthy (PyFloat x) = (\<not> double_is_zero x)"
| "truthy (PyStr s) = (s \<noteq> [])"
| "truthy (PyList xs) = (xs \<noteq> [])"
| "truthy (PyDict kvs) = (kvs \<noteq> [])"

text \<open>A function that returns \<^verbatim>\<open>dict or None\<close> returns an option; \<^verbatim>\<open>None\<close> is false.\<close>

fun truthy_opt :: "pyval option \<Rightarrow> bool" where
  "truthy_opt None = False"
| "truthy_opt (Some v) = truthy v"

fun is_prefix :: "string \<Rightarrow> string \<Rightarrow> bool" where
  "is_prefix [] ys = True"
| "is_prefix (x # xs) [] = False"
| "is_prefix (x # xs) (y # ys) = (x = y \<and> is_prefix xs ys)"

fun is_substring :: "string \<Rightarrow> string \<Rightarrow> bool" where
  "is_substring sub [] = (sub = [])"
| "is_substring sub (c # cs) = (is_prefix sub (c # cs) \<or> is_substring sub cs)"

text \<open>\<^verbatim>\<open>key in obj\<close> for a string key: dictionary keys, list elements, substrings;
  any other object is not iterable.\<close>

fun py_contains :: "pyval \<Rightarrow> string \<Rightarrow> py_error + bool" where
  "py_contains (PyDict kvs) k = Inr (k \<in> set (map fst kvs))"
| "py_contains (PyList xs) k = Inr (PyStr k \<in> set xs)"
| "py_contains (PyStr s) k = Inr (is_substring k s)"
| "py_contains PyNone k = Inl TypeError"
| "py_contains (PyBool b) k = Inl TypeError"
| "py_contains (PyInt i) k = Inl TypeError"
| "py_contains (PyFloat x) k = Inl TypeError"

text \<open>\<^verbatim>\<open>obj[key]\<close> for a string key: only a dictionary can be read by a string.\<close>

fun py_getitem :: "pyval \<Rightarrow> string \<Rightarrow> py_error + pyval" where
  "py_getitem (PyDict kvs) k =
     (case map_of kvs k of None \<Rightarrow> Inl (KeyError k) | Some v \<Rightarrow> Inr v)"
| "py_getitem PyNone k = Inl TypeError"
| "py_getitem (PyBool b) k = Inl TypeError"
| "py_getitem (PyInt i) k = Inl TypeError"
| "py_getitem (PyFloat x) k = Inl TypeError"
| "py_getitem (PyStr s) k = Inl TypeError"
| "py_getitem (PyList xs) k = Inl TypeError"

text \<open>\<^verbatim>\<open>obj[key] = v\<close>: an existing key keeps its place, a new one goes last.\<close>

fun py_setitem :: "pyval \<Rightarrow> string \<Rightarrow> pyval \<Rightarrow> py_error + pyval" where
  "py_setitem (PyDict kvs) k v = Inr (PyDict (AList.update k v kvs))"
| "py_setitem PyNone k v = Inl TypeError"
| "py_setitem (PyBool b) k v = Inl TypeError"
| "py_setitem (PyInt i) k v = Inl TypeError"
| "py_setitem (PyFloat x) k v = Inl TypeError"
| "py_setitem (PyStr s) k v = Inl TypeError"
| "py_setitem (PyList xs) k v = Inl TypeError"

fun isinstance_dict :: "pyval \<Rightarrow> bool" where
  "isinstance_dict (PyDict kvs) = True"
| "isinstance_dict PyNone = False"
| "isinstance_dict (PyBool b) = False"
| "isinstance_dict (PyInt i) = False"
| "isinstance_dict (PyFloat x) = False"
| "isinstance_dict (PyStr s) = False"
| "isinstance_dict (PyList xs) = False"

text \<open>Comparison of a float with the integer \<open>0\<close>: \<^verbatim>\<open>nan\<close> compares false both ways,
  and \<^verbatim>\<open>-0.0 <= 0\<close> holds.\<close>

fun double_gt_zero :: "double \<Rightarrow> bool" where
  "double_gt_zero (Finite s m e) = (\<not> s \<and> 0 < m)"
| "double_gt_zero (Infinity s) = (\<not> s)"
| "double_gt_zero NaN = False"

fun double_le_zero :: "double \<Rightarrow> bool" where
  "double_le_zero (Finite s m e) = (s \<or> m = 0)"
| "double_le_zero (Infinity s) = s"
| "double_le_zero NaN = False"

text \<open>\<^verbatim>\<open>v > 0\<close> and \<^verbatim>\<open>v <= 0\<close>: numbers (and booleans, which are integers) compare,
  every other object raises \<^verbatim>\<open>TypeError\<close>.\<close>

fun py_gt_zero :: "pyval \<Rightarrow> py_error + bool" where
  "py_gt_zero (PyInt i) = Inr (0 < i)"
| "py_gt_zero (PyBool b) = Inr b"
| "py_gt_zero (PyFloat x) = Inr (double_gt_zero x)"
| "py_gt_zero PyNone = Inl TypeError"
| "py_gt_zero (PyStr s) = Inl TypeError"
| "py_gt_zero (PyList xs) = Inl TypeError"
| "py_gt_zero (PyDict kvs) = Inl TypeError"

fun py_le_zero :: "pyval \<Rightarrow> py_error + bool" where
  "py_le_zero (PyInt i) = Inr (i \<le> 0)"
| "py_le_zero (PyBool b) = Inr (\<not> b)"
| "py_le_zero (PyFloat x) = Inr (double_le_zero x)"
| "py_le_zero PyNone = Inl TypeError"
| "py_le_zero (PyStr s) = Inl TypeError"
| "py_le_zero (PyList xs) = Inl TypeError"
| "py_le_zero (PyDict kvs) = Inl TypeError"

section \<open>Float arithmetic\<close>

text \<open>
  Python's \<^verbatim>\<open>float\<close> operations round the exact result to the nearest binary64 number,
  ties to the even significand.  \<open>round_to_double s n d\<close> is the double nearest to the
  fraction \<open>n / d\<close> (both positive), with sign \<open>s\<close>: 53 significant bits, exponents of the
  last bit from \<open>-1074\<close> (subnormal numbers) to \<open>971\<close>, infinity beyond.
\<close>

fun bit_length :: "nat \<Rightarrow> nat" where
  "bit_length n = (if n = 0 then 0 else Suc (bit_length (n div 2)))"

declare bit_length.simps [simp del]

text \<open>The integer \<open>k\<close> with \<open>2^k \<le> n / d < 2^(k+1)\<close>.\<close>

definition floor_log2 :: "nat \<Rightarrow> nat \<Rightarrow> int" where
  "floor_log2 n d =
     (let k = int (bit_length n) - int (bit_length d) in
      if (if 0 \<le> k then d * 2 ^ nat k \<le> n else d \<le> n * 2 ^ nat (- k)) then k else k - 1)"

text \<open>The integer nearest to \<open>n / d\<close>, a tie going to the even one.\<close>

definition round_half_even :: "nat \<Rightarrow> nat \<Rightarrow> nat" where
  "round_half_even n d =
     (let q = n div d; r = n mod d in
      if 2 * r < d \<or> (2 * r = d \<and> even q) then q else q + 1)"

definition round_to_double :: "bool \<Rightarrow> nat \<Rightarrow> nat \<Rightarrow> double" where
  "round_to_double s n d =
     (let e = max (floor_log2 n d - 52) (- 1074);
          m = (if 0 \<le> e then round_half_even n (d * 2 ^ nat e)
               else round_half_even (n * 2 ^ nat (- e)) d)
      in if m = 2 ^ 53
         then (if 971 < e + 1 then Infinity s else Finite s (2 ^ 52) (e + 1))
         else (if 971 < e then Infinity s else Finite s m e))"

text \<open>\<^verbatim>\<open>x * y\<close> on floats.\<close>

fun float_mul :: "double \<Rightarrow> double \<Rightarrow> double" where
  "float_mul NaN y = NaN"
| "float_mul (Infinity s1) NaN = NaN"
| "float_mul (Finite s1 m1 e1) NaN = NaN"
| "float_mul (Infinity s1) (Infinity s2) = Infinity (s1 \<noteq> s2)"
| "float_mul (Infinity s1) (Finite s2 m2 e2) = (if m2 = 0 then NaN else Infinity (s1 \<noteq> s2))"
| "float_mul (Finite s1 m1 e1) (Infinity s2) = (if m1 = 0 then NaN else Infinity (s1 \<noteq> s2))"
| "float_mul (Finite s1 m1 e1) (Finite s2 m2 e2) =
     (if m1 = 0 \<or> m2 = 0 then Finite (s1 \<noteq> s2) 0 (- 1074)
      else if 0 \<le> e1 + e2
      then round_to_double (s1 \<noteq> s2) (m1 * m2 * 2 ^ nat (e1 + e2)) 1
      else round_to_double (s1 \<noteq> s2) (m1 * m2) (2 ^ nat (- (e1 + e2))))"

text \<open>The quotient of two floats, the divisor not zero.\<close>

fun float_div :: "double \<Rightarrow> double \<Rightarrow> double" where
  "float_div NaN y = NaN"
| "float_div (Infinity s1) NaN = NaN"
| "float_div (Finite s1 m1 e1) NaN = NaN"
| "float_div (Infinity s1) (Infinity s2) = NaN"
| "float_div (Infinity s1) (Finite s2 m2 e2) = Infinity (s1 \<noteq> s2)"
| "float_div (Finite s1 m1 e1) (Infinity s2) = Finite (s1 \<noteq> s2) 0 (- 1074)"
| "float_div (Finite s1 m1 e1) (Finite s2 m2 e2) =
     (if m2 = 0 then (if m1 = 0 then NaN else Infinity (s1 \<noteq> s2))
      else if m1 = 0 then Finite (s1 \<noteq> s2) 0 (- 1074)
      else if 0 \<le> e1 - e2
      then round_to_double (s1 \<noteq> s2) (m1 * 2 ^ nat (e1 - e2)) m2
      else round_to_double (s1 \<noteq> s2) m1 (m2 * 2 ^ nat (e2 - e1)))"

text \<open>\<^verbatim>\<open>x / y\<close> on floats: a zero divisor raises, whatever the dividend.\<close>

definition float_truediv :: "double \<Rightarrow> double \<Rightarrow> py_error + double" where
  "float_truediv x y = (if double_is_zero y then Inl ZeroDivisionError else Inr (float_div x y))"

text \<open>\<^verbatim>\<open>float(i)\<close> for an integer: the nearest double, and \<^verbatim>\<open>OverflowError\<close> when there
  is none.\<close>

definition int_to_double :: "int \<Rightarrow> py_error + double" where
  "int_to_double i =
     (if i = 0 then Inr (Finite False 0 (- 1074))
      else (case round_to_double (i < 0) (nat \<bar>i\<bar>) 1 of
              Infinity s \<Rightarrow> Inl OverflowError
            | NaN \<Rightarrow> Inl OverflowError
            | Finite s m e \<Rightarrow> Inr (Finite s m e)))"

text \<open>\<^verbatim>\<open>i / j\<close> on integers: the double nearest to the exact quotient.\<close>

definition int_truediv :: "int \<Rightarrow> int \<Rightarrow> py_error + double" where
  "int_truediv i j =
     (if j = 0 then Inl ZeroDivisionError
      else if i = 0 then Inr (Finite (j < 0) 0 (- 1074))
      else (case round_to_double ((i < 0) \<noteq> (j < 0)) (nat \<bar>i\<bar>) (nat \<bar>j\<bar>) of
              Infinity s \<Rightarrow> Inl OverflowError
            | NaN \<Rightarrow> Inl OverflowError
            | Finite s m e \<Rightarrow> Inr (Finite s m e)))"

text \<open>\<^verbatim>\<open>a / b\<close> on objects: two integers divide exactly and round once; with a float on
  either side the integer is converted first; anything but numbers raises.\<close>

fun py_truediv :: "pyval \<Rightarrow> pyval \<Rightarrow> py_error + double" where
  "py_truediv (PyFloat x) (PyFloat y) = float_truediv x y"
| "py_truediv (PyFloat x) (PyInt j) =
     (case int_to_double j of Inl e \<Rightarrow> Inl e | Inr y \<Rightarrow> float_truediv x y)"
| "py_truediv (PyFloat x) (PyBool c) =
     (case int_to_double (if c then 1 else 0) of Inl e \<Rightarrow> Inl e | Inr y \<Rightarrow> float_truediv x y)"
| "py_truediv (PyInt i) (PyFloat y) =
     (case int_to_double i of Inl e \<Rightarrow> Inl e | Inr x \<Rightarrow> float_truediv x y)"
| "py_truediv (PyBool b) (PyFloat y) =
     (case int_to_double (if b then 1 else 0) of Inl e \<Rightarrow> Inl e | Inr x \<Rightarrow> float_truediv x y)"
| "py_truediv (PyInt i) (PyInt j) = int_truediv i j"
| "py_truediv (PyInt i) (PyBool c) = int_truediv i (if c then 1 else 0)"
| "py_truediv (PyBool b) (PyInt j) = int_truediv (if b then 1 else 0) j"
| "py_truediv (PyBool b) (PyBool c) = int_truediv (if b then 1 else 0) (if c then 1 else 0)"
| "py_truediv a b = Inl TypeError"

text \<open>An object in an f-string: a string stands for itself; for every other object the
  text is what \<^verbatim>\<open>str\<close> gives, which is a parameter \<open>str_of\<close> of the model.\<close>

fun py_format :: "(pyval \<Rightarrow> string) \<Rightarrow> pyval \<Rightarrow> string" where
  "py_format str_of (PyStr s) = s"
| "py_format str_of PyNone = str_of PyNone"
| "py_format str_of (PyBool b) = str_of (PyBool b)"
| "py_format str_of (PyInt i) = str_of (PyInt i)"
| "py_format str_of (PyFloat x) = str_of (PyFloat x)"
| "py_format str_of (PyList xs) = str_of (PyList xs)"
| "py_format str_of (PyDict kvs) = str_of (PyDict kvs)"

text \<open>\<^verbatim>\<open>s.split(sep)\<close> for a one-character separator.\<close>

fun split_on :: "char \<Rightarrow> string \<Rightarrow> string list" where
  "split_on sep [] = [[]]"
| "split_on sep (c # cs) =
     (if c = sep then [] # split_on sep cs
      else (case split_on sep cs of
              [] \<Rightarrow> [[c]]
            | w # ws \<Rightarrow> (c # w) # ws))"

section \<open>Configuration\<close>

definition API_URLS :: "string list" where
  "API_URLS =
     [''https://api.exchangerate-api.com/v4/latest/USD'',
      ''https://api.exchangerate-api.com/v4/latest/EUR'']"

definition CURRENCY_NAMES :: "(string \<times> string) list" where
  "CURRENCY_NAMES =
     [(''USD'', ''US Dollar''),
      (''EUR'', ''Euro''),
      (''RUB'', ''Russian Ruble''),
      (''UAH'', ''Ukrainian Hryvnia''),
      (''GBP'', ''British Pound Sterling''),
      (''JPY'', ''Japanese Yen''),
      (''CNY'', ''Chinese Yuan''),
      (''KZT'', ''Kazakhstani Tenge''),
      (''BYN'', ''Belarusian Ruble''),
      (''PLN'', ''Polish Zloty''),
      (''CAD'', ''Canadian Dollar''),
      (''AUD'', ''Australian Dollar''),
      (''CHF'', ''Swiss Franc''),
      (''CZK'', ''Czech Koruna''),
      (''SEK'', ''Swedish Krona''),
      (''NOK'', ''Norwegian Krone''),
      (''MXN'', ''Mexican Peso''),
      (''SGD'', ''Singapore Dollar''),
      (''HKD'', ''Hong Kong Dollar''),
      (''NZD'', ''New Zealand Dollar''),
      (''ILS'', ''Israeli Shekel''),
      (''KRW'', ''South Korean Won'')]"

section \<open>The world outside the program\<close>

text \<open>
  What a run reads from outside: whether a \<^verbatim>\<open>HEAD\<close> request to a host succeeds, what a
  \<^verbatim>\<open>GET\<close> of a provider gives, the content of \<^verbatim>\<open>currency_rates.json\<close>, and the clock.
  \<open>local_now\<close> is \<^verbatim>\<open>datetime.now()\<close> and \<open>fromtimestamp\<close> is
  \<^verbatim>\<open>datetime.fromtimestamp\<close>, both as microseconds of local time.
\<close>

datatype http_result =
    RequestException
  | JSONDecodeError
  | Response pyval

datatype file_state =
    Missing
  | Unreadable
  | Stored pyval

record world =
  head_ok :: "string \<Rightarrow> bool"
  http_get :: "string \<Rightarrow> http_result"
  db_file :: file_state
  date_str :: string
  time_time :: int
  local_now :: int
  fromtimestamp :: "pyval \<Rightarrow> py_error + int"

section \<open>The program\<close>

fun check_internet_loop :: "world \<Rightarrow> string list \<Rightarrow> bool" where
  "check_internet_loop w [] = False"
| "check_internet_loop w (url # urls) =
     (if head_ok w url then True else check_internet_loop w urls)"

definition check_internet :: "world \<Rightarrow> bool" where
  "check_internet w =
     check_internet_loop w
       [''https://api.exchangerate-api.com'',
        ''https://www.google.com'',
        ''https://www.cloudflare.com'']"

text \<open>The loop over \<^verbatim>\<open>required_fields\<close>: the first field that is not in the data.\<close>

fun missing_field :: "pyval \<Rightarrow> string list \<Rightarrow> py_error + string option" where
  "missing_field data [] = Inr None"
| "missing_field data (field # rest) =
     (case py_contains data field of
        Inl e \<Rightarrow> Inl e
      | Inr False \<Rightarrow> Inr (Some field)
      | Inr True \<Rightarrow> missing_field data rest)"

definition validate_api_response ::
  "(pyval \<Rightarrow> string) \<Rightarrow> pyval \<Rightarrow> string option \<Rightarrow> py_error + (bool \<times> string)" where
  "validate_api_response str_of data expected_base =
     (case missing_field data [''rates'', ''base'', ''date''] of
        Inl e \<Rightarrow> Inl e
      | Inr (Some field) \<Rightarrow>
          Inr (False, ''API response missing required field: '' @ field)
      | Inr None \<Rightarrow>
          (case py_getitem data ''rates'' of
             Inl e \<Rightarrow> Inl e
           | Inr rates \<Rightarrow>
               if \<not> isinstance_dict rates
               then Inr (False, ''The 'rates' field must be a dictionary'')
               else
                 (case expected_base of
                    None \<Rightarrow> Inr (True, ''Data is valid'')
                  | Some expected \<Rightarrow>
                      if expected = [] then Inr (True, ''Data is valid'')
                      else
                        (case py_getitem data ''base'' of
                           Inl e \<Rightarrow> Inl e
                         | Inr base \<Rightarrow>
                             if base \<noteq> PyStr expected
                             then Inr (False,
                               ''Base currency '' @ py_format str_of base
                                 @ '' does not match expected '' @ expected)
                             else Inr (True, ''Data is valid'')))))"

text \<open>
  One pass of the loop of \<^verbatim>\<open>fetch_rates\<close>: the body of its \<^verbatim>\<open>try\<close>.  Every exception
  (of the request, of the decoding, of the validation) and a failed validation end the
  pass with nothing; a valid response is stamped and returned.
\<close>

definition fetch_attempt :: "(pyval \<Rightarrow> string) \<Rightarrow> world \<Rightarrow> string \<Rightarrow> pyval option" where
  "fetch_attempt str_of w api_url =
     (let expected_base = last (split_on (CHR ''/'') api_url) in
      case http_get w api_url of
        RequestException \<Rightarrow> None
      | JSONDecodeError \<Rightarrow> None
      | Response data \<Rightarrow>
          (case validate_api_response str_of data (Some expected_base) of
             Inl e \<Rightarrow> None
           | Inr (False, message) \<Rightarrow> None
           | Inr (True, message) \<Rightarrow>
               (case py_setitem data ''date_fetched'' (PyStr (date_str w)) of
                  Inl e \<Rightarrow> None
                | Inr data1 \<Rightarrow>
                    (case py_setitem data1 ''timestamp'' (PyInt (time_time w)) of
                       Inl e \<Rightarrow> None
                     | Inr data2 \<Rightarrow> Some data2))))"

text \<open>The loop of \<^verbatim>\<open>fetch_rates\<close>, with the list of the URLs it requested.\<close>

fun fetch_loop ::
  "(pyval \<Rightarrow> string) \<Rightarrow> world \<Rightarrow> string list \<Rightarrow> string list \<times> pyval option" where
  "fetch_loop str_of w [] = ([], None)"
| "fetch_loop str_of w (api_url # urls) =
     (case fetch_attempt str_of w api_url of
        Some data \<Rightarrow> ([api_url], Some data)
      | None \<Rightarrow>
          (case fetch_loop str_of w urls of
             (requested, r) \<Rightarrow> (api_url # requested, r)))"

definition fetch_rates :: "(pyval \<Rightarrow> string) \<Rightarrow> world \<Rightarrow> string list \<times> pyval option" where
  "fetch_rates str_of w = fetch_loop str_of w API_URLS"

definition load_db :: "(pyval \<Rightarrow> string) \<Rightarrow> world \<Rightarrow> pyval option" where
  "load_db str_of w =
     (case db_file w of
        Missing \<Rightarrow> None
      | Unreadable \<Rightarrow> None
      | Stored data \<Rightarrow>
          (case validate_api_response str_of data None of
             Inl e \<Rightarrow> None
           | Inr (False, message) \<Rightarrow> None
           | Inr (True, message) \<Rightarrow> Some data))"

definition save_db :: "pyval \<Rightarrow> file_state" where
  "save_db data = Stored data"

text \<open>\<^verbatim>\<open>(datetime.now() - datetime.fromtimestamp(data['timestamp'])).days\<close>: whole days,
  rounded down.\<close>

definition days_since :: "world \<Rightarrow> pyval \<Rightarrow> py_error + int" where
  "days_since w data =
     (case py_getitem data ''timestamp'' of
        Inl e \<Rightarrow> Inl e
      | Inr ts \<Rightarrow>
          (case fromtimestamp w ts of
             Inl e \<Rightarrow> Inl e
           | Inr t \<Rightarrow> Inr ((local_now w - t) div 86400000000)))"

definition is_data_fresh :: "world \<Rightarrow> pyval \<Rightarrow> int \<Rightarrow> py_error + bool" where
  "is_data_fresh w data max_days =
     (case py_contains data ''timestamp'' of
        Inl e \<Rightarrow> Inl e
      | Inr False \<Rightarrow> Inr False
      | Inr True \<Rightarrow>
          (case py_getitem data ''timestamp'' of
             Inl e \<Rightarrow> Inl e
           | Inr ts \<Rightarrow>
               (case fromtimestamp w ts of
                  Inl e \<Rightarrow> Inl e
                | Inr data_date \<Rightarrow>
                    Inr ((local_now w - data_date) div 86400000000 < max_days))))"

text \<open>The loop of \<^verbatim>\<open>get_available_currencies\<close> over the catalog, \<open>available\<close> being the
  list built so far.\<close>

fun available_loop ::
  "pyval \<Rightarrow> (string \<times> string) list \<Rightarrow> (string \<times> string) list
     \<Rightarrow> py_error + (string \<times> string) list" where
  "available_loop rates_data available [] = Inr available"
| "available_loop rates_data available ((code, name) # catalog) =
     (case py_getitem rates_data ''rates'' of
        Inl e \<Rightarrow> Inl e
      | Inr rates \<Rightarrow>
          (case py_contains rates code of
             Inl e \<Rightarrow> Inl e
           | Inr False \<Rightarrow> available_loop rates_data available catalog
           | Inr True \<Rightarrow>
               (case py_getitem rates code of
                  Inl e \<Rightarrow> Inl e
                | Inr rate \<Rightarrow>
                    (case py_gt_zero rate of
                       Inl e \<Rightarrow> Inl e
                     | Inr False \<Rightarrow> available_loop rates_data available catalog
                     | Inr True \<Rightarrow>
                         available_loop rates_data (available @ [(code, name)]) catalog))))"

definition get_available_currencies :: "pyval \<Rightarrow> py_error + (string \<times> string) list" where
  "get_available_currencies rates_data = available_loop rates_data [] CURRENCY_NAMES"

text \<open>The marks that open a status message, as the bytes of the source's literals.\<close>

definition MARK_OK :: string where
  "MARK_OK = [CHR 0xE2, CHR 0x80, CHR 0x9A, CHR 0xC3, CHR 0xBA, CHR 0xC3, CHR 0xAC]"

definition MARK_WARNING :: string where
  "MARK_WARNING =
     [CHR 0xE2, CHR 0x80, CHR 0x9A, CHR 0xC3, CHR 0xB6, CHR 0xE2, CHR 0x80, CHR 0xA0,
      CHR 0xC3, CHR 0x94, CHR 0xE2, CHR 0x88, CHR 0x8F, CHR 0xC3, CHR 0xA8]"

definition MARK_FAILED :: string where
  "MARK_FAILED = [CHR 0xE2, CHR 0x80, CHR 0x9A, CHR 0xC3, CHR 0xB9, CHR 0xC3, CHR 0xA5]"

text \<open>\<^verbatim>\<open>db_data['date_fetched']\<close> inside an f-string.\<close>

definition date_fetched_text :: "(pyval \<Rightarrow> string) \<Rightarrow> pyval \<Rightarrow> py_error + string" where
  "date_fetched_text str_of data =
     (case py_getitem data ''date_fetched'' of
        Inl e \<Rightarrow> Inl e
      | Inr d \<Rightarrow> Inr (py_format str_of d))"

definition display_status_message ::
  "(pyval \<Rightarrow> string) \<Rightarrow> world \<Rightarrow> bool \<Rightarrow> pyval option \<Rightarrow> pyval option
     \<Rightarrow> py_error + string" where
  "display_status_message str_of w internet_available db_data fresh_data =
     (if internet_available then
        (if truthy_opt fresh_data then
           (case fresh_data of
              None \<Rightarrow> Inl TypeError
            | Some fresh \<Rightarrow>
                (case date_fetched_text str_of fresh of
                   Inl e \<Rightarrow> Inl e
                 | Inr d \<Rightarrow>
                     Inr (MARK_OK
                       @ '' Data successfully updated, exchange rates as of '' @ d @ ''.'')))
         else if truthy_opt db_data then
           (case db_data of
              None \<Rightarrow> Inl TypeError
            | Some db \<Rightarrow>
                (case days_since w db of
                   Inl e \<Rightarrow> Inl e
                 | Inr days_old \<Rightarrow>
                     if 7 < days_old then
                       (case date_fetched_text str_of db of
                          Inl e \<Rightarrow> Inl e
                        | Inr d \<Rightarrow>
                            Inr (MARK_WARNING
                              @ '' Data not updated, using outdated data (older than 7 days) as of ''
                              @ d @ ''.''))
                     else
                       (case date_fetched_text str_of db of
                          Inl e \<Rightarrow> Inl e
                        | Inr d \<Rightarrow>
                            Inr (MARK_OK
                              @ '' Data not updated, using current data as of '' @ d @ ''.''))))
         else Inr (MARK_FAILED
                @ '' No data available for display. Check internet connection.''))
      else
        (if truthy_opt db_data then
           (case db_data of
              None \<Rightarrow> Inl TypeError
            | Some db \<Rightarrow>
                (case days_since w db of
                   Inl e \<Rightarrow> Inl e
                 | Inr days_old \<Rightarrow>
                     if 7 < days_old then
                       (case date_fetched_text str_of db of
                          Inl e \<Rightarrow> Inl e
                        | Inr d \<Rightarrow>
                            Inr (MARK_WARNING
                              @ '' No internet connection, using outdated data (older than 7 days) as of ''
                              @ d @ ''.''))
                     else
                       (case date_fetched_text str_of db of
                          Inl e \<Rightarrow> Inl e
                        | Inr d \<Rightarrow>
                            Inr (MARK_OK
                              @ '' No internet connection, using current data as of ''
                              @ d @ ''.''))))
         else Inr (MARK_FAILED
                @ '' No internet connection and no local data available.'')))"

definition perform_conversion ::
  "(pyval \<Rightarrow> string) \<Rightarrow> pyval \<Rightarrow> string \<Rightarrow> string \<Rightarrow> double \<Rightarrow> py_error + double" where
  "perform_conversion str_of rates_data src_code tgt_code amount =
     (case py_getitem rates_data ''rates'' of
        Inl e \<Rightarrow> Inl e
      | Inr rates \<Rightarrow>
     (case py_contains rates src_code of
        Inl e \<Rightarrow> Inl e
      | Inr False \<Rightarrow>
          Inl (ValueError (''Source currency '' @ src_code @ '' is not available in the data''))
      | Inr True \<Rightarrow>
     (case py_contains rates tgt_code of
        Inl e \<Rightarrow> Inl e
      | Inr False \<Rightarrow>
          Inl (ValueError (''Target currency '' @ tgt_code @ '' is not available in the data''))
      | Inr True \<Rightarrow>
     (case py_getitem rates src_code of
        Inl e \<Rightarrow> Inl e
      | Inr src_rate \<Rightarrow>
     (case py_getitem rates tgt_code of
        Inl e \<Rightarrow> Inl e
      | Inr tgt_rate \<Rightarrow>
     (case py_le_zero src_rate of
        Inl e \<Rightarrow> Inl e
      | Inr True \<Rightarrow>
          Inl (ValueError (''Source currency rate '' @ src_code @ '' is ''
                 @ py_format str_of src_rate @ '', which is invalid''))
      | Inr False \<Rightarrow>
     (case py_le_zero tgt_rate of
        Inl e \<Rightarrow> Inl e
      | Inr True \<Rightarrow>
          Inl (ValueError (''Target currency rate '' @ tgt_code @ '' is ''
                 @ py_format str_of tgt_rate @ '', which is invalid''))
      | Inr False \<Rightarrow>
     (case py_truediv tgt_rate src_rate of
        Inl e \<Rightarrow> Inl e
      | Inr cross_rate \<Rightarrow> Inr (float_mul amount cross_rate)))))))))"

text \<open>
  The list \<^verbatim>\<open>missing_currencies\<close> of \<^verbatim>\<open>main\<close>: the required codes that are not in the
  rates or whose rate is not positive.
\<close>

fun missing_currencies :: "pyval \<Rightarrow> string list \<Rightarrow> py_error + string list" where
  "missing_currencies rates_data [] = Inr []"
| "missing_currencies rates_data (currency # rest) =
     (case py_getitem rates_data ''rates'' of
        Inl e \<Rightarrow> Inl e
      | Inr rates \<Rightarrow>
          (case py_contains rates currency of
             Inl e \<Rightarrow> Inl e
           | Inr False \<Rightarrow>
               (case missing_currencies rates_data rest of
                  Inl e \<Rightarrow> Inl e
                | Inr ms \<Rightarrow> Inr (currency # ms))
           | Inr True \<Rightarrow>
               (case py_getitem rates currency of
                  Inl e \<Rightarrow> Inl e
                | Inr rate \<Rightarrow>
                    (case py_le_zero rate of
                       Inl e \<Rightarrow> Inl e
                     | Inr True \<Rightarrow>
                         (case missing_currencies rates_data rest of
                            Inl e \<Rightarrow> Inl e
                          | Inr ms \<Rightarrow> Inr (currency # ms))
                     | Inr False \<Rightarrow> missing_currencies rates_data rest))))"

text \<open>
  One round of the loop, once the user has picked the source currency, the amount and the
  target currency: the same currency twice asks again; an exception of the conversion or
  of the display is caught and shown; otherwise the result is shown with the date of the
  rates.
\<close>

datatype round_outcome =
    SameCurrency
  | ConversionError py_error
  | Converted double string

definition conversion_round ::
  "(pyval \<Rightarrow> string) \<Rightarrow> pyval \<Rightarrow> string \<times> string \<Rightarrow> double \<Rightarrow> string \<times> string
     \<Rightarrow> round_outcome" where
  "conversion_round str_of rates_data src amount tgt =
     (if fst src = fst tgt then SameCurrency
      else
        (case perform_conversion str_of rates_data (fst src) (fst tgt) amount of
           Inl e \<Rightarrow> ConversionError e
         | Inr result \<Rightarrow>
             (case date_fetched_text str_of rates_data of
                Inl e \<Rightarrow> ConversionError e
              | Inr d \<Rightarrow> Converted result d)))"

text \<open>
  The start of \<^verbatim>\<open>main\<close>, up to the status message: the probe, the load, the fetch (with
  the URLs requested), the save, the choice of \<^verbatim>\<open>rates_data\<close>, and the status message
  or the exception that formatting it raises.
\<close>

record startup =
  internet_available :: bool
  db_data :: "pyval option"
  requested :: "string list"
  fresh_data :: "pyval option"
  db_file_after :: file_state
  rates_data :: "pyval option"
  status_message :: "py_error + string"

definition main_startup :: "(pyval \<Rightarrow> string) \<Rightarrow> world \<Rightarrow> startup" where
  "main_startup str_of w =
     (let internet = check_internet w;
          db = load_db str_of w;
          fetched = (if internet then fetch_rates str_of w else ([], None));
          fresh = snd fetched;
          file_after =
            (if internet \<and> truthy_opt fresh
             then (case fresh of None \<Rightarrow> db_file w | Some data \<Rightarrow> save_db data)
             else db_file w);
          rates = (if truthy_opt fresh then fresh else db)
      in \<lparr> internet_available = internet,
           db_data = db,
           requested = fst fetched,
           fresh_data = fresh,
           db_file_after = file_after,
           rates_data = rates,
           status_message = display_status_message str_of w internet db fresh \<rparr>)"

text \<open>
  \<^verbatim>\<open>main\<close> from its start to the conversion loop: it raises, returns \<^verbatim>\<open>False\<close>, or enters
  the loop with the active snapshot and the list of currencies on offer.
\<close>

definition required_currencies :: "string list" where
  "required_currencies = [''USD'', ''EUR'', ''RUB'']"

datatype main_outcome =
    Raises py_error
  | Returns bool
  | EntersLoop pyval "(string \<times> string) list"

definition main_until_loop :: "(pyval \<Rightarrow> string) \<Rightarrow> world \<Rightarrow> main_outcome" where
  "main_until_loop str_of w =
     (let s = main_startup str_of w in
      case status_message s of
        Inl e \<Rightarrow> Raises e
      | Inr message \<Rightarrow>
          if \<not> truthy_opt (rates_data s) then Returns False
          else
            (case rates_data s of
               None \<Rightarrow> Returns False
             | Some rates \<Rightarrow>
                 (case missing_currencies rates required_currencies of
                    Inl e \<Rightarrow> Raises e
                  | Inr missing \<Rightarrow>
                      (case get_available_currencies rates of
                         Inl e \<Rightarrow> Raises e
                       | Inr currencies \<Rightarrow>
                           if currencies = [] then Returns False
                           else EntersLoop rates currencies))))"

text \<open>The exit code of the program: \<open>0\<close> when \<^verbatim>\<open>main\<close> returned \<^verbatim>\<open>True\<close>, \<open>1\<close> when it
  returned \<^verbatim>\<open>False\<close> or raised.\<close>

fun exit_code :: "main_outcome \<Rightarrow> int option" where
  "exit_code (Raises e) = Some 1"
| "exit_code (Returns success) = Some (if success then 0 else 1)"
| "exit_code (EntersLoop rates currencies) = None"

section \<open>Notions used in the statements\<close>

definition endpoint_valid :: "(pyval \<Rightarrow> string) \<Rightarrow> world \<Rightarrow> string \<Rightarrow> bool" where
  "endpoint_valid str_of w api_url =
     (case http_get w api_url of
        RequestException \<Rightarrow> False
      | JSONDecodeError \<Rightarrow> False
      | Response data \<Rightarrow>
          (case validate_api_response str_of data (Some (last (split_on (CHR ''/'') api_url))) of
             Inl e \<Rightarrow> False
           | Inr (ok, message) \<Rightarrow> ok))"

definition has_positive_rate :: "pyval \<Rightarrow> string \<Rightarrow> bool" where
  "has_positive_rate snapshot code =
     (case py_getitem snapshot ''rates'' of
        Inl e \<Rightarrow> False
      | Inr rates \<Rightarrow>
          (case py_contains rates code of
             Inl e \<Rightarrow> False
           | Inr False \<Rightarrow> False
           | Inr True \<Rightarrow>
               (case py_getitem rates code of
                  Inl e \<Rightarrow> False
                | Inr rate \<Rightarrow> py_gt_zero rate = Inr True)))"

definition rates_nonempty_and_positive :: "pyval \<Rightarrow> bool" where
  "rates_nonempty_and_positive snapshot =
     (case py_getitem snapshot ''rates'' of
        Inr (PyDict rs) \<Rightarrow> rs \<noteq> [] \<and> list_all (\<lambda>(code, rate). py_gt_zero rate = Inr True) rs
      | _ \<Rightarrow> False)"

fun is_number :: "pyval \<Rightarrow> bool" where
  "is_number (PyInt i) = True"
| "is_number (PyFloat x) = True"
| "is_number (PyBool b) = True"
| "is_number PyNone = False"
| "is_number (PyStr s) = False"
| "is_number (PyList xs) = False"
| "is_number (PyDict kvs) = False"

definition is_suffix :: "string \<Rightarrow> string \<Rightarrow> bool" where
  "is_suffix suffix s = is_prefix (rev suffix) (rev s)"

definition is_unknown_currency :: "py_error + double \<Rightarrow> bool" where
  "is_unknown_currency r =
     (case r of
        Inl (ValueError message) \<Rightarrow> is_suffix '' is not available in the data'' message
      | _ \<Rightarrow> False)"

definition is_invalid_rate :: "py_error + double \<Rightarrow> bool" where
  "is_invalid_rate r =
     (case r of
        Inl (ValueError message) \<Rightarrow> is_suffix '', which is invalid'' message
      | _ \<Rightarrow> False)"

text \<open>The double \<open>2^j\<close>, for \<open>j\<close> from \<open>-1022\<close> to \<open>1023\<close>.\<close>

definition power_of_two :: "int \<Rightarrow> double" where
  "power_of_two j = Finite False (2 ^ 52) (j - 52)"

text \<open>
  The rounding of a product, once its exponent is known: \<open>mantissa_of p\<close> is the integer
  \<open>p\<close> rounded to 53 significant bits, and \<open>pack\<close> carries a significand that rounded
  up to \<open>2^53\<close> into the exponent.
\<close>

definition mantissa_of :: "nat \<Rightarrow> nat" where
  "mantissa_of p =
     (let l = bit_length p - 1 in
      if l \<le> 52 then p * 2 ^ (52 - l) else round_half_even p (2 ^ (l - 52)))"

definition pack :: "bool \<Rightarrow> nat \<Rightarrow> int \<Rightarrow> double" where
  "pack s m e =
     (if m = 2 ^ 53
      then (if 971 < e + 1 then Infinity s else Finite s (2 ^ 52) (e + 1))
      else (if 971 < e then Infinity s else Finite s m e))"

section \<open>Example worlds\<close>

definition example_str_of :: "pyval \<Rightarrow> string" where
  "example_str_of v = ''?''"

definition usd_body :: pyval where
  "usd_body =
     PyDict [(''base'', PyStr ''USD''), (''date'', PyStr ''2025-08-25''),
       (''rates'', PyDict [(''USD'', PyFloat (Finite False 4503599627370496 (- 52))),
                          (''EUR'', PyFloat (Finite False 8106479329266893 (- 53))),
                          (''RUB'', PyFloat (Finite False 6685030696878080 (- 46)))])]"

definition usd_body_stamped :: pyval where
  "usd_body_stamped =
     PyDict [(''base'', PyStr ''USD''), (''date'', PyStr ''2025-08-25''),
       (''rates'', PyDict [(''USD'', PyFloat (Finite False 4503599627370496 (- 52))),
                          (''EUR'', PyFloat (Finite False 8106479329266893 (- 53))),
                          (''RUB'', PyFloat (Finite False 6685030696878080 (- 46)))]),
       (''date_fetched'', PyStr ''08/25/2025''), (''timestamp'', PyInt 1756080000)]"

definition providers_up_probe_down :: world where
  "providers_up_probe_down =
     \<lparr> head_ok = (\<lambda>url. False),
       http_get = (\<lambda>url. if url = ''https://api.exchangerate-api.com/v4/latest/USD''
                           then Response usd_body else RequestException),
       db_file = Missing,
       date_str = ''08/25/2025'',
       time_time = 1756080000,
       local_now = 1756080000000000,
       fromtimestamp = (\<lambda>v. case v of PyInt i \<Rightarrow> Inr (i * 1000000) | _ \<Rightarrow> Inl TypeError) \<rparr>"

definition zero_rate_body :: pyval where
  "zero_rate_body =
     PyDict [(''base'', PyStr ''USD''), (''date'', PyStr ''2025-08-25''),
       (''rates'', PyDict [(''USD'', PyFloat (Finite False 4503599627370496 (- 52))),
                          (''RUB'', PyFloat (Finite False 0 (- 1074)))])]"

definition zero_rate_stamped :: pyval where
  "zero_rate_stamped =
     PyDict [(''base'', PyStr ''USD''), (''date'', PyStr ''2025-08-25''),
       (''rates'', PyDict [(''USD'', PyFloat (Finite False 4503599627370496 (- 52))),
                          (''RUB'', PyFloat (Finite False 0 (- 1074)))]),
       (''date_fetched'', PyStr ''08/25/2025''), (''timestamp'', PyInt 1756080000)]"

definition online_zero_rate :: world where
  "online_zero_rate =
     \<lparr> head_ok = (\<lambda>url. True),
       http_get = (\<lambda>url. if url = ''https://api.exchangerate-api.com/v4/latest/USD''
                           then Response zero_rate_body else RequestException),
       db_file = Missing,
       date_str = ''08/25/2025'',
       time_time = 1756080000,
       local_now = 1756080000000000,
       fromtimestamp = (\<lambda>v. case v of PyInt i \<Rightarrow> Inr (i * 1000000) | _ \<Rightarrow> Inl TypeError) \<rparr>"

definition unordered_snapshot :: pyval where
  "unordered_snapshot =
     PyDict [(''base'', PyStr ''USD''), (''date'', PyStr ''2025-08-25''),
       (''rates'', PyDict [(''XYZ'', PyFloat (Finite False 4503599627370496 (- 52))),
                          (''RUB'', PyFloat (Finite False 6685030696878080 (- 46))),
                          (''JPY'', PyFloat (Finite True 4503599627370496 (- 52))),
                          (''GBP'', PyInt 0),
                          (''EUR'', PyFloat (Finite False 8106479329266893 (- 53))),
                          (''USD'', PyInt 1)])]"

definition stale_offline :: world where
  "stale_offline =
     \<lparr> head_ok = (\<lambda>url. False),
       http_get = (\<lambda>url. RequestException),
       db_file = Stored usd_body_stamped,
       date_str = ''09/04/2025'',
       time_time = 1756944000,
       local_now = 1756944000000000,
       fromtimestamp = (\<lambda>v. case v of PyInt i \<Rightarrow> Inr (i * 1000000) | _ \<Rightarrow> Inl TypeError) \<rparr>"

text \<open>A snapshot with an integer rate that no double can hold.\<close>

definition huge_integer :: int where
  "huge_integer = 2 ^ 1024"

definition huge_rate_snapshot :: pyval where
  "huge_rate_snapshot =
     PyDict [(''base'', PyStr ''USD''), (''date'', PyStr ''2025-08-25''),
       (''rates'', PyDict [(''USD'', PyFloat (Finite False 4503599627370496 (- 52))),
                          (''EUR'', PyInt huge_integer)])]"

text \<open>A store with a timestamp and no fetch date, and a world that is offline with the
  store that has neither.\<close>

definition usd_body_timestamp_only :: pyval where
  "usd_body_timestamp_only =
     PyDict [(''base'', PyStr ''USD''), (''date'', PyStr ''2025-08-25''),
       (''rates'', PyDict [(''USD'', PyFloat (Finite False 4503599627370496 (- 52))),
                          (''EUR'', PyFloat (Finite False 8106479329266893 (- 53))),
                          (''RUB'', PyFloat (Finite False 6685030696878080 (- 46)))]),
       (''timestamp'', PyInt 1756080000)]"

definition offline_bare_store :: world where
  "offline_bare_store =
     \<lparr> head_ok = (\<lambda>url. False),
       http_get = (\<lambda>url. RequestException),
       db_file = Stored usd_body,
       date_str = ''09/04/2025'',
       time_time = 1756944000,
       local_now = 1756944000000000,
       fromtimestamp = (\<lambda>v. case v of PyInt i \<Rightarrow> Inr (i * 1000000) | _ \<Rightarrow> Inl TypeError) \<rparr>"

section \<open>Properties\<close>

lemma update_not_Nil: "AList.update k v kvs \<noteq> []"
  by (cases kvs) auto

lemma fetch_attempt_truthy: "fetch_attempt str_of w url = Some data \<Longrightarrow> truthy data"
  unfolding fetch_attempt_def Let_def
  by (auto split: http_result.splits sum.splits prod.splits bool.splits if_splits
      elim!: py_setitem.elims simp: update_not_Nil)

lemma fetch_loop_truthy: "fetch_loop str_of w urls = (reqs, Some data) \<Longrightarrow> truthy data"
  by (induction urls arbitrary: reqs)
     (auto split: option.splits prod.splits dest: fetch_attempt_truthy)

lemma fetch_rates_truthy: "snd (fetch_rates str_of w) = Some data \<Longrightarrow> truthy data"
  unfolding fetch_rates_def
  by (metis fetch_loop_truthy prod.collapse)


lemma missing_field_dict:
  "missing_field data (f # fs) = Inr None \<Longrightarrow> \<exists>kvs. data = PyDict kvs \<or> (\<exists>xs. data = PyList xs) \<or> (\<exists>s. data = PyStr s)"
  by (cases data) (auto)

lemma validate_true_dict:
  assumes "validate_api_response str_of data expected = Inr (True, m)"
  shows "\<exists>kvs. data = PyDict kvs"
proof (cases data)
  case (PyDict kvs) then show ?thesis by simp
qed (use assms in \<open>auto simp: validate_api_response_def split: sum.splits option.splits if_splits bool.splits\<close>)

lemma fetch_attempt_Some:
  "fetch_attempt str_of w url = Some data \<longleftrightarrow>
     endpoint_valid str_of w url \<and>
     (\<exists>kvs. http_get w url = Response (PyDict kvs) \<and>
        data = PyDict (AList.update ''timestamp'' (PyInt (time_time w))
                 (AList.update ''date_fetched'' (PyStr (date_str w)) kvs)))"
proof (cases "http_get w url")
  case (Response body)
  show ?thesis
  proof (cases "validate_api_response str_of body (Some (last (split_on (CHR ''/'') url)))")
    case (Inl e)
    with Response show ?thesis
      by (simp add: fetch_attempt_def endpoint_valid_def)
  next
    case (Inr r)
    obtain ok m where r: "r = (ok, m)" by (cases r)
    show ?thesis
    proof (cases ok)
      case True
      with Inr r have "validate_api_response str_of body (Some (last (split_on (CHR ''/'') url))) = Inr (True, m)"
        by simp
      then obtain kvs where "body = PyDict kvs"
        using validate_true_dict by blast
      with Response Inr r True show ?thesis
        by (auto simp: fetch_attempt_def endpoint_valid_def)
    next
      case False
      with Response Inr r show ?thesis
        by (simp add: fetch_attempt_def endpoint_valid_def)
    qed
  qed
qed (simp_all add: fetch_attempt_def endpoint_valid_def)

lemma fetch_attempt_None:
  "fetch_attempt str_of w url = None \<longleftrightarrow> \<not> endpoint_valid str_of w url"
proof (cases "fetch_attempt str_of w url")
  case None
  show ?thesis
  proof (cases "endpoint_valid str_of w url")
    case True
    then obtain body m where b: "http_get w url = Response body"
      "validate_api_response str_of body (Some (last (split_on (CHR ''/'') url))) = Inr (True, m)"
      by (auto simp: endpoint_valid_def split: http_result.splits sum.splits)
    then obtain kvs where "body = PyDict kvs"
      using validate_true_dict by blast
    with b None show ?thesis
      by (simp add: fetch_attempt_def)
  next
    case False
    with None show ?thesis by simp
  qed
next
  case (Some d)
  then have "endpoint_valid str_of w url"
    using fetch_attempt_Some by blast
  with Some show ?thesis by simp
qed

lemma fetch_loop_None:
  "fetch_loop str_of w urls = (reqs, None) \<longleftrightarrow>
     reqs = urls \<and> (\<forall>u \<in> set urls. \<not> endpoint_valid str_of w u)"
proof (induction urls arbitrary: reqs)
  case Nil
  then show ?case by auto
next
  case (Cons a urls)
  obtain r d where rd: "fetch_loop str_of w urls = (r, d)"
    by (cases "fetch_loop str_of w urls")
  show ?case
  proof (cases "fetch_attempt str_of w a")
    case None
    then have "\<not> endpoint_valid str_of w a" using fetch_attempt_None by blast
    with None rd Cons.IH[of r] Cons.IH[of urls] show ?thesis by auto
  next
    case (Some x)
    then have "endpoint_valid str_of w a" using fetch_attempt_Some by blast
    with Some show ?thesis by auto
  qed
qed

lemma fetch_loop_Some:
  "fetch_loop str_of w urls = (reqs, Some data) \<longleftrightarrow>
     (\<exists>pre url post. urls = pre @ url # post \<and> reqs = pre @ [url] \<and>
        (\<forall>u \<in> set pre. \<not> endpoint_valid str_of w u) \<and>
        fetch_attempt str_of w url = Some data)"
proof (induction urls arbitrary: reqs)
  case Nil
  then show ?case by simp
next
  case (Cons a urls)
  show ?case
  proof (cases "fetch_attempt str_of w a")
    case None
    then have nv: "\<not> endpoint_valid str_of w a" using fetch_attempt_None by blast
    show ?thesis
    proof
      assume "fetch_loop str_of w (a # urls) = (reqs, Some data)"
      with None obtain r where r: "fetch_loop str_of w urls = (r, Some data)" "reqs = a # r"
        by (auto split: prod.splits)
      from Cons.IH[of r] r obtain pre url post where
        "urls = pre @ url # post" "r = pre @ [url]"
        "\<forall>u \<in> set pre. \<not> endpoint_valid str_of w u" "fetch_attempt str_of w url = Some data"
        by blast
      with nv r show "\<exists>pre url post. a # urls = pre @ url # post \<and> reqs = pre @ [url] \<and>
        (\<forall>u \<in> set pre. \<not> endpoint_valid str_of w u) \<and> fetch_attempt str_of w url = Some data"
        by (intro exI[of _ "a # pre"] exI[of _ url] exI[of _ post]) simp
    next
      assume "\<exists>pre url post. a # urls = pre @ url # post \<and> reqs = pre @ [url] \<and>
        (\<forall>u \<in> set pre. \<not> endpoint_valid str_of w u) \<and> fetch_attempt str_of w url = Some data"
      then obtain pre url post where p: "a # urls = pre @ url # post" "reqs = pre @ [url]"
        "\<forall>u \<in> set pre. \<not> endpoint_valid str_of w u" "fetch_attempt str_of w url = Some data"
        by blast
      from p None obtain pre' where pre': "pre = a # pre'"
        by (cases pre) auto
      with p have "fetch_loop str_of w urls = (pre' @ [url], Some data)"
        using Cons.IH[of "pre' @ [url]"] by auto
      with None pre' p show "fetch_loop str_of w (a # urls) = (reqs, Some data)"
        by simp
    qed
  next
    case (Some d)
    then have v: "endpoint_valid str_of w a" using fetch_attempt_Some by blast
    show ?thesis
    proof
      assume "fetch_loop str_of w (a # urls) = (reqs, Some data)"
      with Some have "reqs = [a]" "d = data" by auto
      with Some show "\<exists>pre url post. a # urls = pre @ url # post \<and> reqs = pre @ [url] \<and>
        (\<forall>u \<in> set pre. \<not> endpoint_valid str_of w u) \<and> fetch_attempt str_of w url = Some data"
        by (intro exI[of _ "[]"] exI[of _ a] exI[of _ urls]) simp
    next
      assume "\<exists>pre url post. a # urls = pre @ url # post \<and> reqs = pre @ [url] \<and>
        (\<forall>u \<in> set pre. \<not> endpoint_valid str_of w u) \<and> fetch_attempt str_of w url = Some data"
      then obtain pre url post where p: "a # urls = pre @ url # post" "reqs = pre @ [url]"
        "\<forall>u \<in> set pre. \<not> endpoint_valid str_of w u" "fetch_attempt str_of w url = Some data"
        by blast
      from p v have "pre = []" by (cases pre) auto
      with p Some show "fetch_loop str_of w (a # urls) = (reqs, Some data)"
        by simp
    qed
  qed
qed

lemmas eval_defs =
  API_URLS_def fetch_rates_def fetch_attempt_def validate_api_response_def
  check_internet_def main_startup_def load_db_def save_db_def Let_def

text \<open>
  C5 is false of the code: the fetch is behind the probe.  In a world whose providers
  answer but whose probe fails, \<^verbatim>\<open>fetch_rates\<close> would return a snapshot, and \<^verbatim>\<open>main\<close>
  requests nothing and has no fresh data.
\<close>

theorem no_fetch_when_probe_fails:
  "snd (fetch_rates example_str_of providers_up_probe_down) = Some usd_body_stamped
   \<and> requested (main_startup example_str_of providers_up_probe_down) = []
   \<and> fresh_data (main_startup example_str_of providers_up_probe_down) = None"
  by (simp add: eval_defs providers_up_probe_down_def usd_body_def usd_body_stamped_def)

text \<open>
  C5, as amended.  The providers are asked exactly when the probe found a connection:
  then the run's requests and fresh data are those of \<^verbatim>\<open>fetch_rates\<close> (which always asks
  at least one provider); otherwise nothing is requested and there is no fresh data.
\<close>

theorem fetch_gated_by_probe:
  "requested (main_startup str_of w) = (if check_internet w then fst (fetch_rates str_of w) else [])
   \<and> fresh_data (main_startup str_of w) = (if check_internet w then snd (fetch_rates str_of w) else None)
   \<and> fst (fetch_rates str_of w) \<noteq> []"
  by (auto simp: main_startup_def Let_def fetch_rates_def API_URLS_def split: option.splits prod.splits)

lemma getitem_stamped:
  "py_getitem (PyDict (AList.update ''timestamp'' t (AList.update ''date_fetched'' d kvs))) k =
     (if k = ''timestamp'' then Inr t else if k = ''date_fetched'' then Inr d
      else py_getitem (PyDict kvs) k)"
  by (simp add: update_conv')

text \<open>
  C7.  \<^verbatim>\<open>fetch_rates\<close> asks the providers in the order of \<^verbatim>\<open>API_URLS\<close>.  When it returns a
  snapshot, every provider before some URL of the list failed, that URL gave a response
  that passed the validation, the requests stopped there, and the snapshot is that
  response stamped with the date and the time of the fetch.  It returns nothing exactly
  when every provider of the list failed (and then it has asked them all).
\<close>

theorem fetch_rates_first_valid:
  assumes "fetch_rates str_of w = (reqs, result)"
  shows "(result = None) = (\<forall>url \<in> set API_URLS. \<not> endpoint_valid str_of w url)
       \<and> (case result of
           None \<Rightarrow> reqs = API_URLS
         | Some data \<Rightarrow>
             (\<exists>pre url post body.
                API_URLS = pre @ url # post \<and> reqs = pre @ [url] \<and>
                (\<forall>u \<in> set pre. \<not> endpoint_valid str_of w u) \<and>
                endpoint_valid str_of w url \<and>
                http_get w url = Response body \<and>
                py_getitem data ''timestamp'' = Inr (PyInt (time_time w)) \<and>
                py_getitem data ''date_fetched'' = Inr (PyStr (date_str w)) \<and>
                (\<forall>k. k \<noteq> ''timestamp'' \<and> k \<noteq> ''date_fetched''
                     \<longrightarrow> py_getitem data k = py_getitem body k)))"
proof -
  have loop: "fetch_loop str_of w API_URLS = (reqs, result)"
    using assms by (simp add: fetch_rates_def)
  show ?thesis
  proof (cases result)
    case None
    with loop show ?thesis by (simp add: fetch_loop_None)
  next
    case (Some data)
    with loop obtain pre url post where p:
      "API_URLS = pre @ url # post" "reqs = pre @ [url]"
      "\<forall>u \<in> set pre. \<not> endpoint_valid str_of w u" "fetch_attempt str_of w url = Some data"
      using fetch_loop_Some by blast
    from p(4) obtain kvs where k: "endpoint_valid str_of w url"
      "http_get w url = Response (PyDict kvs)"
      "data = PyDict (AList.update ''timestamp'' (PyInt (time_time w))
                 (AList.update ''date_fetched'' (PyStr (date_str w)) kvs))"
      using fetch_attempt_Some by blast
    have g: "py_getitem data ''timestamp'' = Inr (PyInt (time_time w))"
      "py_getitem data ''date_fetched'' = Inr (PyStr (date_str w))"
      "\<forall>k. k \<noteq> ''timestamp'' \<and> k \<noteq> ''date_fetched''
          \<longrightarrow> py_getitem data k = py_getitem (PyDict kvs) k"
      unfolding k(3) getitem_stamped by simp_all
    from p(1) have "url \<in> set API_URLS"
      by (metis in_set_conv_decomp)
    with k(1) have "\<not> (\<forall>url \<in> set API_URLS. \<not> endpoint_valid str_of w url)"
      by blast
    moreover have "\<exists>pre url post body.
                API_URLS = pre @ url # post \<and> reqs = pre @ [url] \<and>
                (\<forall>u \<in> set pre. \<not> endpoint_valid str_of w u) \<and>
                endpoint_valid str_of w url \<and>
                http_get w url = Response body \<and>
                py_getitem data ''timestamp'' = Inr (PyInt (time_time w)) \<and>
                py_getitem data ''date_fetched'' = Inr (PyStr (date_str w)) \<and>
                (\<forall>k. k \<noteq> ''timestamp'' \<and> k \<noteq> ''date_fetched''
                     \<longrightarrow> py_getitem data k = py_getitem body k)"
      using p k(1,2) g by blast
    ultimately show ?thesis using Some by simp
  qed
qed

lemma first_provider_fetch:
  "fetch_rates example_str_of providers_up_probe_down
     = ([''https://api.exchangerate-api.com/v4/latest/USD''], Some usd_body_stamped)"
  by (simp add: eval_defs providers_up_probe_down_def usd_body_def usd_body_stamped_def)

theorem fetch_rates_first_valid_witness:
  "fetch_rates example_str_of providers_up_probe_down
     = ([''https://api.exchangerate-api.com/v4/latest/USD''], Some usd_body_stamped)
   \<and> \<not> (\<forall>url \<in> set API_URLS. \<not> endpoint_valid example_str_of providers_up_probe_down url)
   \<and> (\<exists>pre url post body.
         API_URLS = pre @ url # post
         \<and> [''https://api.exchangerate-api.com/v4/latest/USD''] = pre @ [url]
         \<and> endpoint_valid example_str_of providers_up_probe_down url
         \<and> http_get providers_up_probe_down url = Response body
         \<and> py_getitem usd_body_stamped ''timestamp''
             = Inr (PyInt (time_time providers_up_probe_down)))"
  using fetch_rates_first_valid [OF first_provider_fetch] first_provider_fetch
  by (simp del: split_paired_Ex) blast

lemma validate_dict_True:
  "validate_api_response str_of (PyDict kvs) expected = Inr (True, m) \<longleftrightarrow>
     m = ''Data is valid'' \<and> (\<exists>rs. map_of kvs ''rates'' = Some (PyDict rs)) \<and>
     map_of kvs ''base'' \<noteq> None \<and> map_of kvs ''date'' \<noteq> None \<and>
     (case expected of None \<Rightarrow> True
      | Some b \<Rightarrow> b = [] \<or> map_of kvs ''base'' = Some (PyStr b))"
proof -
  have keys: "\<And>k. (k \<in> fst ` set kvs) = (map_of kvs k \<noteq> None)"
    by (simp add: map_of_eq_None_iff)
  show ?thesis
  proof (cases "map_of kvs ''rates''")
    case None
    then show ?thesis by (simp add: validate_api_response_def keys)
  next
    case (Some r)
    note r = this
    show ?thesis
    proof (cases "map_of kvs ''base''")
      case None
      with r show ?thesis by (simp add: validate_api_response_def keys)
    next
      case (Some b)
      note b = this
      show ?thesis
      proof (cases "map_of kvs ''date''")
        case None
        with r b show ?thesis by (simp add: validate_api_response_def keys)
      next
        case (Some d)
        with r b show ?thesis
          by (cases r; cases expected) (auto simp: validate_api_response_def keys)
      qed
    qed
  qed
qed

lemma validate_stamped:
  assumes "validate_api_response str_of (PyDict kvs) expected = Inr (True, m)"
  shows "validate_api_response str_of
           (PyDict (AList.update ''timestamp'' t (AList.update ''date_fetched'' d kvs))) None
         = Inr (True, ''Data is valid'')"
  using assms unfolding validate_dict_True by (auto simp: update_conv')

lemma fetch_attempt_valid:
  assumes "fetch_attempt str_of w url = Some data"
  shows "validate_api_response str_of data None = Inr (True, ''Data is valid'')"
proof -
  from assms obtain kvs where k: "endpoint_valid str_of w url"
      "http_get w url = Response (PyDict kvs)"
      "data = PyDict (AList.update ''timestamp'' (PyInt (time_time w))
                 (AList.update ''date_fetched'' (PyStr (date_str w)) kvs))"
    using fetch_attempt_Some by blast
  from k(1,2) obtain m where
    "validate_api_response str_of (PyDict kvs) (Some (last (split_on (CHR ''/'') url))) = Inr (True, m)"
    by (auto simp: endpoint_valid_def split: sum.splits)
  then show ?thesis unfolding k(3) by (rule validate_stamped)
qed

lemma fetch_rates_valid:
  assumes "snd (fetch_rates str_of w) = Some data"
  shows "validate_api_response str_of data None = Inr (True, ''Data is valid'')"
proof -
  obtain reqs where "fetch_loop str_of w API_URLS = (reqs, Some data)"
    using assms by (cases "fetch_loop str_of w API_URLS") (simp add: fetch_rates_def)
  then obtain url where "fetch_attempt str_of w url = Some data"
    using fetch_loop_Some by blast
  then show ?thesis by (rule fetch_attempt_valid)
qed

lemma load_db_valid:
  assumes "load_db str_of w = Some data"
  shows "validate_api_response str_of data None = Inr (True, ''Data is valid'')"
proof -
  from assms obtain m where m: "validate_api_response str_of data None = Inr (True, m)"
    by (auto simp: load_db_def split: file_state.splits sum.splits prod.splits bool.splits)
  then obtain kvs where "data = PyDict kvs" using validate_true_dict by blast
  with m show ?thesis by (simp add: validate_dict_True)
qed

lemma available_loop_filter:
  "available_loop snapshot acc catalog = Inr currencies \<Longrightarrow>
     currencies = acc @ filter (\<lambda>(code, name). has_positive_rate snapshot code) catalog"
proof (induction catalog arbitrary: acc)
  case Nil
  then show ?case by simp
next
  case (Cons entry catalog)
  obtain code name where entry: "entry = (code, name)" by (cases entry)
  from Cons.prems entry obtain rates where rates: "py_getitem snapshot ''rates'' = Inr rates"
    by (auto split: sum.splits)
  from Cons.prems entry rates obtain present where present: "py_contains rates code = Inr present"
    by (auto split: sum.splits)
  show ?case
  proof (cases present)
    case False
    with Cons.prems entry rates present
    have "available_loop snapshot acc catalog = Inr currencies" by simp
    from Cons.IH[OF this] entry rates present False show ?thesis
      by (simp add: has_positive_rate_def)
  next
    case True
    from Cons.prems entry rates present True obtain rate where rate: "py_getitem rates code = Inr rate"
      by (auto split: sum.splits)
    from Cons.prems entry rates present True rate obtain pos where pos: "py_gt_zero rate = Inr pos"
      by (auto split: sum.splits)
    show ?thesis
    proof (cases pos)
      case False
      with Cons.prems entry rates present True rate pos
      have "available_loop snapshot acc catalog = Inr currencies" by simp
      from Cons.IH[OF this] entry rates present True rate pos False show ?thesis
        by (simp add: has_positive_rate_def)
    next
      case ptrue: True
      with Cons.prems entry rates present True rate pos
      have "available_loop snapshot (acc @ [(code, name)]) catalog = Inr currencies" by simp
      from Cons.IH[OF this] entry rates present True rate pos ptrue show ?thesis
        by (simp add: has_positive_rate_def)
    qed
  qed
qed

lemma get_available_currencies_filter:
  "get_available_currencies snapshot = Inr currencies \<Longrightarrow>
     currencies = filter (\<lambda>(code, name). has_positive_rate snapshot code) CURRENCY_NAMES"
  unfolding get_available_currencies_def by (drule available_loop_filter) simp

lemma main_until_loop_EntersLoop:
  assumes "main_until_loop str_of w = EntersLoop snapshot currencies"
  shows "rates_data (main_startup str_of w) = Some snapshot
         \<and> get_available_currencies snapshot = Inr currencies \<and> currencies \<noteq> []"
  using assms unfolding main_until_loop_def Let_def
  by (auto split: sum.splits if_splits option.splits)

lemma fresh_data_truthy:
  "fresh_data (main_startup str_of w) = Some data \<Longrightarrow>
     check_internet w \<and> snd (fetch_rates str_of w) = Some data \<and> truthy data"
  by (cases "check_internet w") (auto simp: main_startup_def Let_def dest: fetch_rates_truthy)

text \<open>
  C4, as amended.  A run saves a snapshot exactly when the fetch gave one; every snapshot
  that is fetched (so saved) or chosen as the active one passed the structural checks of
  \<^verbatim>\<open>validate_api_response\<close>; and when the run reaches the conversion loop, the list of
  currencies on offer is not empty and each of them has a strictly positive rate in the
  active snapshot.  Nothing checks that a snapshot's rates are all positive.
\<close>

theorem stored_and_active_pass_structural_checks:
  "db_file_after (main_startup str_of w) =
     (case fresh_data (main_startup str_of w) of
        None \<Rightarrow> db_file w
      | Some data \<Rightarrow> Stored data)
   \<and> (\<forall>data. fresh_data (main_startup str_of w) = Some data
                \<or> rates_data (main_startup str_of w) = Some data
          \<longrightarrow> validate_api_response str_of data None = Inr (True, ''Data is valid''))
   \<and> (\<forall>snapshot currencies. main_until_loop str_of w = EntersLoop snapshot currencies
          \<longrightarrow> rates_data (main_startup str_of w) = Some snapshot \<and> currencies \<noteq> []
              \<and> (\<forall>(code, name) \<in> set currencies. has_positive_rate snapshot code))"
proof (intro conjI allI impI)
  show "db_file_after (main_startup str_of w) =
     (case fresh_data (main_startup str_of w) of
        None \<Rightarrow> db_file w
      | Some data \<Rightarrow> Stored data)"
  proof (cases "fresh_data (main_startup str_of w)")
    case None
    then show ?thesis by (simp add: main_startup_def Let_def)
  next
    case (Some data)
    from fresh_data_truthy[OF this] Some show ?thesis
      by (simp add: main_startup_def Let_def save_db_def)
  qed
next
  fix data
  assume "fresh_data (main_startup str_of w) = Some data
          \<or> rates_data (main_startup str_of w) = Some data"
  then have "snd (fetch_rates str_of w) = Some data \<or> load_db str_of w = Some data"
    by (cases "check_internet w"; cases "truthy_opt (snd (fetch_rates str_of w))")
       (auto simp: main_startup_def Let_def)
  then show "validate_api_response str_of data None = Inr (True, ''Data is valid'')"
    using fetch_rates_valid load_db_valid by blast
next
  fix snapshot currencies
  assume loop: "main_until_loop str_of w = EntersLoop snapshot currencies"
  note e = main_until_loop_EntersLoop[OF loop]
  from e show "rates_data (main_startup str_of w) = Some snapshot" by simp
  from e show "currencies \<noteq> []" by simp
  from e have "get_available_currencies snapshot = Inr currencies" by simp
  from get_available_currencies_filter[OF this]
  show "\<forall>(code, name) \<in> set currencies. has_positive_rate snapshot code"
    by auto
qed

lemma zero_rate_startup:
  "db_file_after (main_startup example_str_of online_zero_rate) = Stored zero_rate_stamped"
  "rates_data (main_startup example_str_of online_zero_rate) = Some zero_rate_stamped"
  "fresh_data (main_startup example_str_of online_zero_rate) = Some zero_rate_stamped"
  "status_message (main_startup example_str_of online_zero_rate) =
     Inr (MARK_OK @ '' Data successfully updated, exchange rates as of 08/25/2025.'')"
  by (simp_all add: eval_defs online_zero_rate_def zero_rate_body_def zero_rate_stamped_def
      display_status_message_def date_fetched_text_def)

lemma zero_rate_currencies:
  "get_available_currencies zero_rate_stamped = Inr [(''USD'', ''US Dollar'')]"
  by (simp add: get_available_currencies_def CURRENCY_NAMES_def zero_rate_stamped_def)

lemma zero_rate_missing:
  "missing_currencies zero_rate_stamped required_currencies = Inr [''EUR'', ''RUB'']"
  by (simp add: zero_rate_stamped_def required_currencies_def)

lemma zero_rate_loop:
  "main_until_loop example_str_of online_zero_rate
     = EntersLoop zero_rate_stamped [(''USD'', ''US Dollar'')]"
proof -
  have "truthy zero_rate_stamped" by (simp add: zero_rate_stamped_def)
  then show ?thesis
    unfolding main_until_loop_def Let_def zero_rate_startup
    by (simp add: zero_rate_missing zero_rate_currencies)
qed

text \<open>
  C4 is false of the code: a provider's response with a zero rate is saved and becomes
  the active snapshot of the run.
\<close>

theorem zero_rate_snapshot_stored_and_used:
  "db_file_after (main_startup example_str_of online_zero_rate) = Stored zero_rate_stamped
   \<and> rates_data (main_startup example_str_of online_zero_rate) = Some zero_rate_stamped
   \<and> main_until_loop example_str_of online_zero_rate
        = EntersLoop zero_rate_stamped [(''USD'', ''US Dollar'')]
   \<and> \<not> rates_nonempty_and_positive zero_rate_stamped"
  by (simp add: zero_rate_startup zero_rate_loop)
     (simp add: rates_nonempty_and_positive_def zero_rate_stamped_def)

theorem stored_and_active_witness:
  "rates_data (main_startup example_str_of online_zero_rate) = Some zero_rate_stamped
   \<and> main_until_loop example_str_of online_zero_rate
        = EntersLoop zero_rate_stamped [(''USD'', ''US Dollar'')]
   \<and> db_file_after (main_startup example_str_of online_zero_rate) = Stored zero_rate_stamped
   \<and> validate_api_response example_str_of zero_rate_stamped None = Inr (True, ''Data is valid'')
   \<and> has_positive_rate zero_rate_stamped ''USD''"
  using stored_and_active_pass_structural_checks [of example_str_of online_zero_rate]
  by (simp add: zero_rate_startup zero_rate_loop)

lemma is_number_gt_zero: "is_number v \<Longrightarrow> \<exists>b. py_gt_zero v = Inr b"
  by (cases v) auto

lemma available_loop_total:
  assumes "py_getitem snapshot ''rates'' = Inr (PyDict rs)"
    and "\<forall>(code, name) \<in> set catalog. \<forall>rate. map_of rs code = Some rate \<longrightarrow> is_number rate"
  shows "available_loop snapshot acc catalog =
           Inr (acc @ filter (\<lambda>(code, name). case map_of rs code of
                                                 None \<Rightarrow> False
                                               | Some rate \<Rightarrow> py_gt_zero rate = Inr True)
                        catalog)"
  using assms(2)
proof (induction catalog arbitrary: acc)
  case Nil
  then show ?case by simp
next
  case (Cons entry catalog)
  obtain code name where entry: "entry = (code, name)" by (cases entry)
  from Cons.prems have rest: "\<forall>(code, name) \<in> set catalog. \<forall>rate. map_of rs code = Some rate \<longrightarrow> is_number rate"
    by simp
  note IH = Cons.IH[OF rest]
  show ?case
  proof (cases "map_of rs code")
    case None
    then have "code \<notin> fst ` set rs" by (simp add: map_of_eq_None_iff)
    with None entry assms(1) IH show ?thesis
      by simp
  next
    case (Some rate)
    then have in_keys: "code \<in> fst ` set rs" by (metis map_of_eq_None_iff option.distinct(1))
    from Cons.prems entry Some have "is_number rate" by auto
    then obtain b where b: "py_gt_zero rate = Inr b" using is_number_gt_zero by blast
    with Some in_keys entry assms(1) IH show ?thesis
      by (cases b) simp_all
  qed
qed

text \<open>
  C8.  For a snapshot whose rates are numbers, \<^verbatim>\<open>get_available_currencies\<close> returns the
  entries of the catalog \<^verbatim>\<open>CURRENCY_NAMES\<close>, in the catalog's order, whose code is a key
  of the rates with a rate that is strictly positive; a code that is missing from the
  rates, or whose rate is zero or negative, is left out.
\<close>

theorem available_currencies_catalog_filter:
  assumes "py_getitem snapshot ''rates'' = Inr (PyDict rs)"
    and "\<forall>(code, name) \<in> set CURRENCY_NAMES. \<forall>rate. map_of rs code = Some rate \<longrightarrow> is_number rate"
  shows "get_available_currencies snapshot =
           Inr (filter (\<lambda>(code, name). case map_of rs code of
                                          None \<Rightarrow> False
                                        | Some rate \<Rightarrow> py_gt_zero rate = Inr True)
                  CURRENCY_NAMES)"
  using available_loop_total[OF assms, of "[]"]
  by (simp add: get_available_currencies_def)

theorem available_currencies_witness:
  "py_getitem unordered_snapshot ''rates'' =
      Inr (PyDict [(''XYZ'', PyFloat (Finite False 4503599627370496 (- 52))),
                          (''RUB'', PyFloat (Finite False 6685030696878080 (- 46))),
                          (''JPY'', PyFloat (Finite True 4503599627370496 (- 52))),
                          (''GBP'', PyInt 0),
                          (''EUR'', PyFloat (Finite False 8106479329266893 (- 53))),
                          (''USD'', PyInt 1)])
   \<and> get_available_currencies unordered_snapshot =
      Inr [(''USD'', ''US Dollar''), (''EUR'', ''Euro''), (''RUB'', ''Russian Ruble'')]"
proof -
  have r: "py_getitem unordered_snapshot ''rates'' =
      Inr (PyDict [(''XYZ'', PyFloat (Finite False 4503599627370496 (- 52))),
                          (''RUB'', PyFloat (Finite False 6685030696878080 (- 46))),
                          (''JPY'', PyFloat (Finite True 4503599627370496 (- 52))),
                          (''GBP'', PyInt 0),
                          (''EUR'', PyFloat (Finite False 8106479329266893 (- 53))),
                          (''USD'', PyInt 1)])"
    by (simp add: unordered_snapshot_def)
  show ?thesis
    using available_currencies_catalog_filter [OF r] r
    by (simp add: CURRENCY_NAMES_def)
qed

lemma perform_conversion_dict:
  assumes "py_getitem snapshot ''rates'' = Inr (PyDict rs)"
  shows "perform_conversion str_of snapshot src tgt amount =
     (case map_of rs src of
        None \<Rightarrow> Inl (ValueError (''Source currency '' @ src @ '' is not available in the data''))
      | Some src_rate \<Rightarrow>
     (case map_of rs tgt of
        None \<Rightarrow> Inl (ValueError (''Target currency '' @ tgt @ '' is not available in the data''))
      | Some tgt_rate \<Rightarrow>
     (case py_le_zero src_rate of
        Inl e \<Rightarrow> Inl e
      | Inr True \<Rightarrow>
          Inl (ValueError (''Source currency rate '' @ src @ '' is ''
                 @ py_format str_of src_rate @ '', which is invalid''))
      | Inr False \<Rightarrow>
     (case py_le_zero tgt_rate of
        Inl e \<Rightarrow> Inl e
      | Inr True \<Rightarrow>
          Inl (ValueError (''Target currency rate '' @ tgt @ '' is ''
                 @ py_format str_of tgt_rate @ '', which is invalid''))
      | Inr False \<Rightarrow>
     (case py_truediv tgt_rate src_rate of
        Inl e \<Rightarrow> Inl e
      | Inr cross_rate \<Rightarrow> Inr (float_mul amount cross_rate))))))"
proof (cases "map_of rs src")
  case None
  then have "src \<notin> fst ` set rs" by (simp add: map_of_eq_None_iff)
  with None assms show ?thesis by (simp add: perform_conversion_def)
next
  case (Some src_rate)
  then have s: "src \<in> fst ` set rs" by (metis map_of_eq_None_iff option.distinct(1))
  show ?thesis
  proof (cases "map_of rs tgt")
    case None
    then have "tgt \<notin> fst ` set rs" by (simp add: map_of_eq_None_iff)
    with None Some s assms show ?thesis by (simp add: perform_conversion_def)
  next
    case tgt_rate: (Some tgt_rate)
    then have t: "tgt \<in> fst ` set rs" by (metis map_of_eq_None_iff option.distinct(1))
    with tgt_rate Some s assms show ?thesis by (simp add: perform_conversion_def)
  qed
qed


lemma le_zero_or_not_zero: "\<not> double_le_zero x \<Longrightarrow> \<not> double_is_zero x"
  by (cases x) auto


lemma eur_to_rub_10:
  "perform_conversion str_of usd_body ''EUR'' ''RUB'' (Finite False 5629499534213120 (- 49))
     = Inr (Finite False 4642382428387556 (- 42))"
  by (simp add: perform_conversion_def usd_body_def float_truediv_def round_to_double_def
      round_half_even_def floor_log2_def Let_def bit_length.simps)



lemma check_internet_loop_now [simp]:
  "check_internet_loop (w\<lparr>local_now := n\<rparr>) urls = check_internet_loop w urls"
  by (induction urls) auto

lemma fetch_attempt_now [simp]:
  "fetch_attempt str_of (w\<lparr>local_now := n\<rparr>) url = fetch_attempt str_of w url"
  by (simp add: fetch_attempt_def
      split: http_result.splits sum.splits prod.splits bool.splits)

lemma fetch_loop_now [simp]:
  "fetch_loop str_of (w\<lparr>local_now := n\<rparr>) urls = fetch_loop str_of w urls"
  by (induction urls) (simp_all split: option.splits)

lemma startup_now:
  "check_internet (w\<lparr>local_now := n\<rparr>) = check_internet w"
  "load_db str_of (w\<lparr>local_now := n\<rparr>) = load_db str_of w"
  "fetch_rates str_of (w\<lparr>local_now := n\<rparr>) = fetch_rates str_of w"
  by (simp_all add: check_internet_def load_db_def fetch_rates_def)

lemma startup_fields_now:
  "rates_data (main_startup str_of (w\<lparr>local_now := n\<rparr>)) = rates_data (main_startup str_of w)"
  "fresh_data (main_startup str_of (w\<lparr>local_now := n\<rparr>)) = fresh_data (main_startup str_of w)"
  "db_data (main_startup str_of (w\<lparr>local_now := n\<rparr>)) = db_data (main_startup str_of w)"
  "internet_available (main_startup str_of (w\<lparr>local_now := n\<rparr>)) = check_internet w"
  by (simp_all add: main_startup_def Let_def startup_now)

lemma main_until_loop_status:
  assumes "status_message (main_startup str_of w) = Inr m"
    and "status_message (main_startup str_of (w\<lparr>local_now := n\<rparr>)) = Inr m'"
  shows "main_until_loop str_of (w\<lparr>local_now := n\<rparr>) = main_until_loop str_of w"
  using assms by (simp add: main_until_loop_def Let_def startup_fields_now)

lemma stored_status:
  assumes "load_db str_of w = Some (PyDict kvs)"
    and "fresh_data (main_startup str_of w) = None"
    and "map_of kvs ''timestamp'' = Some ts"
    and "fromtimestamp w ts = Inr t"
    and "map_of kvs ''date_fetched'' = Some d"
  shows "status_message (main_startup str_of w) =
       Inr (if 7 < (local_now w - t) div 86400000000
            then MARK_WARNING
              @ (if check_internet w
                 then '' Data not updated, using outdated data (older than 7 days) as of ''
                 else '' No internet connection, using outdated data (older than 7 days) as of '')
              @ py_format str_of d @ ''.''
            else MARK_OK
              @ (if check_internet w
                 then '' Data not updated, using current data as of ''
                 else '' No internet connection, using current data as of '')
              @ py_format str_of d @ ''.'')"
    and "rates_data (main_startup str_of w) = Some (PyDict kvs)"
proof -
  from assms(3) have ne: "kvs \<noteq> []" by auto
  from assms(2) have fresh: "(if check_internet w then snd (fetch_rates str_of w) else None) = None"
    by (cases "check_internet w") (simp_all add: main_startup_def Let_def)
  have days: "days_since w (PyDict kvs) = Inr ((local_now w - t) div 86400000000)"
    using assms(3,4) by (simp add: days_since_def)
  have date: "date_fetched_text str_of (PyDict kvs) = Inr (py_format str_of d)"
    using assms(5) by (simp add: date_fetched_text_def)
  show "rates_data (main_startup str_of w) = Some (PyDict kvs)"
    using fresh assms(1) by (cases "check_internet w") (simp_all add: main_startup_def Let_def)
  show "status_message (main_startup str_of w) =
       Inr (if 7 < (local_now w - t) div 86400000000
            then MARK_WARNING
              @ (if check_internet w
                 then '' Data not updated, using outdated data (older than 7 days) as of ''
                 else '' No internet connection, using outdated data (older than 7 days) as of '')
              @ py_format str_of d @ ''.''
            else MARK_OK
              @ (if check_internet w
                 then '' Data not updated, using current data as of ''
                 else '' No internet connection, using current data as of '')
              @ py_format str_of d @ ''.'')"
    using fresh assms(1) ne
    by (cases "check_internet w")
       (simp_all add: main_startup_def Let_def display_status_message_def days date)
qed

text \<open>
  C6.  A run falls back on a stored snapshot that carries a timestamp and a fetch date.
  Whatever the time \<open>n\<close> of the run: \<^verbatim>\<open>is_data_fresh\<close> (with its \<open>7\<close> days) says the
  snapshot is not fresh exactly when \<open>n\<close> is seven days or more after the timestamp; the
  status message is the "outdated" one exactly when the age in whole days is more than
  \<open>7\<close> and the "current" one otherwise; the stored snapshot is the active one; and the
  run continues as it would at any other age.
\<close>

theorem staleness_only_words_the_message:
  assumes "load_db str_of w = Some (PyDict kvs)"
    and "fresh_data (main_startup str_of w) = None"
    and "map_of kvs ''timestamp'' = Some ts"
    and "fromtimestamp w ts = Inr t"
    and "map_of kvs ''date_fetched'' = Some d"
  shows "\<forall>n. let w' = w\<lparr>local_now := n\<rparr> in
       is_data_fresh w' (PyDict kvs) 7 = Inr (\<not> 7 * 86400000000 \<le> n - t)
     \<and> status_message (main_startup str_of w') =
         Inr (if 7 < (n - t) div 86400000000
              then MARK_WARNING
                @ (if check_internet w
                   then '' Data not updated, using outdated data (older than 7 days) as of ''
                   else '' No internet connection, using outdated data (older than 7 days) as of '')
                @ py_format str_of d @ ''.''
              else MARK_OK
                @ (if check_internet w
                   then '' Data not updated, using current data as of ''
                   else '' No internet connection, using current data as of '')
                @ py_format str_of d @ ''.'')
     \<and> rates_data (main_startup str_of w') = Some (PyDict kvs)
     \<and> main_until_loop str_of w' = main_until_loop str_of w"
proof
  fix n
  define w' where "w' = w\<lparr>local_now := n\<rparr>"
  have a: "load_db str_of w' = Some (PyDict kvs)"
    "fresh_data (main_startup str_of w') = None" "fromtimestamp w' ts = Inr t"
    "check_internet w' = check_internet w" "local_now w' = n"
    using assms by (simp_all add: w'_def startup_now startup_fields_now)
  have in_keys: "''timestamp'' \<in> fst ` set kvs"
    using assms(3) by (metis map_of_eq_None_iff option.distinct(1))
  have fresh: "is_data_fresh w' (PyDict kvs) 7 = Inr (\<not> 7 * 86400000000 \<le> n - t)"
  proof -
    have "((n - t) div 86400000000 < 7) = (\<not> 7 * 86400000000 \<le> n - t)" by linarith
    with in_keys assms(3) a(3,5) show ?thesis by (simp add: is_data_fresh_def)
  qed
  note st = stored_status[OF a(1,2) assms(3) a(3) assms(5), unfolded a(4,5)]
  note st0 = stored_status(1)[OF assms]
  have "main_until_loop str_of w' = main_until_loop str_of w"
    unfolding w'_def using st0 st(1)[unfolded w'_def] by (rule main_until_loop_status)
  with fresh st show "let w' = w\<lparr>local_now := n\<rparr> in
       is_data_fresh w' (PyDict kvs) 7 = Inr (\<not> 7 * 86400000000 \<le> n - t)
     \<and> status_message (main_startup str_of w') =
         Inr (if 7 < (n - t) div 86400000000
              then MARK_WARNING
                @ (if check_internet w
                   then '' Data not updated, using outdated data (older than 7 days) as of ''
                   else '' No internet connection, using outdated data (older than 7 days) as of '')
                @ py_format str_of d @ ''.''
              else MARK_OK
                @ (if check_internet w
                   then '' Data not updated, using current data as of ''
                   else '' No internet connection, using current data as of '')
                @ py_format str_of d @ ''.'')
     \<and> rates_data (main_startup str_of w') = Some (PyDict kvs)
     \<and> main_until_loop str_of w' = main_until_loop str_of w"
    unfolding Let_def w'_def by blast
qed

theorem staleness_witness:
  "load_db example_str_of stale_offline = Some usd_body_stamped
   \<and> fresh_data (main_startup example_str_of stale_offline) = None
   \<and> py_getitem usd_body_stamped ''timestamp'' = Inr (PyInt 1756080000)
   \<and> fromtimestamp stale_offline (PyInt 1756080000) = Inr 1756080000000000
   \<and> local_now stale_offline - 1756080000000000 = 10 * 86400000000
   \<and> is_data_fresh stale_offline usd_body_stamped 7 = Inr False
   \<and> status_message (main_startup example_str_of stale_offline) =
        Inr (MARK_WARNING
          @ '' No internet connection, using outdated data (older than 7 days) as of 08/25/2025.'')
   \<and> rates_data (main_startup example_str_of stale_offline) = Some usd_body_stamped"
proof -
  define kvs where "kvs =
     [(''base'', PyStr ''USD''), (''date'', PyStr ''2025-08-25''),
       (''rates'', PyDict [(''USD'', PyFloat (Finite False 4503599627370496 (- 52))),
                          (''EUR'', PyFloat (Finite False 8106479329266893 (- 53))),
                          (''RUB'', PyFloat (Finite False 6685030696878080 (- 46)))]),
       (''date_fetched'', PyStr ''08/25/2025''), (''timestamp'', PyInt 1756080000)]"
  have body: "usd_body_stamped = PyDict kvs"
    by (simp add: usd_body_stamped_def kvs_def)
  have l: "load_db example_str_of stale_offline = Some (PyDict kvs)"
    by (simp add: load_db_def validate_api_response_def stale_offline_def kvs_def
        usd_body_stamped_def)
  have f: "fresh_data (main_startup example_str_of stale_offline) = None"
    by (simp add: main_startup_def check_internet_def stale_offline_def Let_def
        usd_body_stamped_def)
  have ts: "map_of kvs ''timestamp'' = Some (PyInt 1756080000)"
    by (simp add: kvs_def)
  have t: "fromtimestamp stale_offline (PyInt 1756080000) = Inr 1756080000000000"
    by (simp add: stale_offline_def)
  have d: "map_of kvs ''date_fetched'' = Some (PyStr ''08/25/2025'')"
    by (simp add: kvs_def)
  have n: "stale_offline\<lparr>local_now := 1756944000000000\<rparr> = stale_offline"
    by (simp add: stale_offline_def)
  have c: "\<not> check_internet stale_offline"
    by (simp add: check_internet_def stale_offline_def)
  from staleness_only_words_the_message [OF l f ts t d]
  have "let w' = stale_offline\<lparr>local_now := 1756944000000000\<rparr> in
       is_data_fresh w' (PyDict kvs) 7
         = Inr (\<not> 7 * 86400000000 \<le> 1756944000000000 - (1756080000000000 :: int))
     \<and> status_message (main_startup example_str_of w') =
         Inr (if 7 < (1756944000000000 - (1756080000000000 :: int)) div 86400000000
              then MARK_WARNING
                @ (if check_internet stale_offline
                   then '' Data not updated, using outdated data (older than 7 days) as of ''
                   else '' No internet connection, using outdated data (older than 7 days) as of '')
                @ py_format example_str_of (PyStr ''08/25/2025'') @ ''.''
              else MARK_OK
                @ (if check_internet stale_offline
                   then '' Data not updated, using current data as of ''
                   else '' No internet connection, using current data as of '')
                @ py_format example_str_of (PyStr ''08/25/2025'') @ ''.'')
     \<and> rates_data (main_startup example_str_of w') = Some (PyDict kvs)
     \<and> main_until_loop example_str_of w' = main_until_loop example_str_of stale_offline"
    by blast
  then have "is_data_fresh stale_offline (PyDict kvs) 7 = Inr False
     \<and> status_message (main_startup example_str_of stale_offline) =
        Inr (MARK_WARNING
          @ '' No internet connection, using outdated data (older than 7 days) as of 08/25/2025.'')
     \<and> rates_data (main_startup example_str_of stale_offline) = Some (PyDict kvs)"
    unfolding Let_def n using c by simp
  moreover have "local_now stale_offline - 1756080000000000 = 10 * 86400000000"
    by (simp add: stale_offline_def)
  ultimately show ?thesis
    using l f ts t unfolding body by simp
qed

lemma bit_length_pos: "0 < n \<Longrightarrow> 0 < bit_length n"
  by (subst bit_length.simps) simp

lemma bit_length_bounds:
  "0 < n \<Longrightarrow> 2 ^ (bit_length n - 1) \<le> n \<and> n < 2 ^ bit_length n"
proof (induction n rule: bit_length.induct)
  case (1 n)
  show ?case
  proof (cases "n div 2 = 0")
    case True
    with "1.prems" have "n = 1" by (cases n) auto
    then show ?thesis by (simp add: bit_length.simps)
  next
    case False
    then have h: "0 < n div 2" by simp
    with "1.prems" "1.IH" have IH: "2 ^ (bit_length (n div 2) - 1) \<le> n div 2"
      "n div 2 < 2 ^ bit_length (n div 2)" by auto
    have bl: "bit_length n = Suc (bit_length (n div 2))"
      using "1.prems" by (subst bit_length.simps) simp
    from bit_length_pos[OF h] obtain k where k: "bit_length (n div 2) = Suc k"
      by (cases "bit_length (n div 2)") auto
    from IH k have "2 * 2 ^ k \<le> 2 * (n div 2)" by simp
    then have lo: "2 ^ Suc k \<le> n" by simp
    from IH(2) have "n div 2 + 1 \<le> 2 ^ bit_length (n div 2)" by simp
    then have "2 * (n div 2) + 2 \<le> 2 * 2 ^ bit_length (n div 2)" by simp
    then have hi: "n < 2 * 2 ^ bit_length (n div 2)" by linarith
    from lo hi bl k show ?thesis by simp
  qed
qed

lemma bit_length_eqI:
  assumes "2 ^ k \<le> n" "n < 2 ^ Suc k"
  shows "bit_length n = Suc k"
proof -
  from assms(1) have pos: "0 < n" by (metis less_le_trans zero_less_numeral zero_less_power)
  note b = bit_length_bounds[OF pos]
  have one: "(1::nat) < 2" by simp
  from b assms(2) have "(2::nat) ^ (bit_length n - 1) < 2 ^ Suc k" by linarith
  from power_less_imp_less_exp[OF one this] have "bit_length n - 1 < Suc k" .
  moreover from b assms(1) have "(2::nat) ^ k < 2 ^ bit_length n" by linarith
  from power_less_imp_less_exp[OF one this] have "k < bit_length n" .
  ultimately show ?thesis by linarith
qed

lemma bit_length_mult_pow2: "0 < p \<Longrightarrow> bit_length (p * 2 ^ k) = bit_length p + k"
proof -
  assume pos: "0 < p"
  from bit_length_pos[OF pos] obtain l where l: "bit_length p = Suc l"
    by (cases "bit_length p") auto
  from bit_length_bounds[OF pos] l have b: "2 ^ l \<le> p" "p < 2 ^ Suc l" by auto
  from b(1) have "2 ^ l * 2 ^ k \<le> p * 2 ^ k" by simp
  then have lo: "2 ^ (l + k) \<le> p * 2 ^ k" by (simp add: power_add)
  from b(2) have "p * 2 ^ k < 2 ^ Suc l * 2 ^ k" by simp
  then have hi: "p * 2 ^ k < 2 ^ Suc (l + k)" by (simp add: power_add)
  from bit_length_eqI[OF lo hi] l show ?thesis by simp
qed

lemma bit_length_pow2: "bit_length (2 ^ k) = Suc k"
  by (rule bit_length_eqI) simp_all

lemma bit_length_one: "bit_length 1 = 1"
  using bit_length_pow2[of 0] by simp

lemma round_half_even_cancel:
  assumes "0 < c"
  shows "round_half_even (a * c) (b * c) = round_half_even a b"
proof -
  have d: "(a * c) div (b * c) = a div b" using assms by simp
  have m: "(a * c) mod (b * c) = (a mod b) * c" using assms by simp
  have lt: "(2 * ((a mod b) * c) < b * c) = (2 * (a mod b) < b)"
    using assms by (metis mult.assoc mult_less_cancel2)
  have eq: "(2 * ((a mod b) * c) = b * c) = (2 * (a mod b) = b)"
    using assms by (metis mult.assoc mult_cancel2 less_numeral_extra(3))
  show ?thesis
    unfolding round_half_even_def Let_def d m lt eq ..
qed

lemma round_half_even_one: "round_half_even a 1 = a"
  by (simp add: round_half_even_def)

lemma round_half_even_Suc_0: "round_half_even a (Suc 0) = a"
  by (simp add: round_half_even_def)

lemma round_half_even_self: "0 < c \<Longrightarrow> round_half_even (a * c) c = a"
  by (simp add: round_half_even_def)

lemma round_half_even_bounds:
  assumes "0 < d" "lo * d \<le> n" "n < hi * d"
  shows "lo \<le> round_half_even n d \<and> round_half_even n d \<le> hi"
proof -
  from assms have "lo \<le> n div d"
    by (metis div_le_mono div_mult_self_is_m)
  moreover from assms have "n div d < hi"
    by (simp add: less_mult_imp_div_less)
  ultimately show ?thesis
    by (auto simp: round_half_even_def Let_def)
qed

lemma bit_length_Suc_0: "bit_length (Suc 0) = Suc 0"
  using bit_length_one by simp

lemma floor_log2_num:
  assumes "0 < p"
  shows "floor_log2 (p * 2 ^ k) 1 = int (bit_length p) - 1 + int k"
proof -
  from bit_length_pos[OF assms] obtain l where l: "bit_length p = Suc l"
    by (cases "bit_length p") auto
  from bit_length_bounds[OF assms] l have b: "2 ^ l \<le> p" by auto
  from b have "2 ^ l * 2 ^ k \<le> p * 2 ^ k" by simp
  then have "2 ^ (l + k) \<le> p * 2 ^ k" by (simp add: power_add)
  moreover have "nat (int l + int k) = l + k" by simp
  ultimately show ?thesis
    by (simp add: floor_log2_def bit_length_mult_pow2[OF assms] bit_length_Suc_0 l Let_def)
qed

lemma floor_log2_den:
  assumes "0 < p"
  shows "floor_log2 p (2 ^ f) = int (bit_length p) - 1 - int f"
proof -
  from bit_length_pos[OF assms] obtain l where l: "bit_length p = Suc l"
    by (cases "bit_length p") auto
  from bit_length_bounds[OF assms] l have b: "2 ^ l \<le> p" by auto
  show ?thesis
  proof (cases "f \<le> l")
    case True
    have "(2::nat) ^ f * 2 ^ (l - f) = 2 ^ l"
      using True by (simp add: power_add[symmetric])
    with b have "2 ^ f * 2 ^ (l - f) \<le> p" by simp
    moreover have "nat (int l - int f) = l - f" by simp
    ultimately show ?thesis
      using True by (simp add: floor_log2_def bit_length_pow2 l Let_def)
  next
    case False
    have "(2::nat) ^ l * 2 ^ (f - l) = 2 ^ f"
      using False by (simp add: power_add[symmetric])
    moreover from b have "2 ^ l * 2 ^ (f - l) \<le> p * 2 ^ (f - l)" by simp
    ultimately have "2 ^ f \<le> p * 2 ^ (f - l)" by simp
    moreover have "nat (int f - int l) = f - l" by simp
    ultimately show ?thesis
      using False by (simp add: floor_log2_def bit_length_pow2 l Let_def)
  qed
qed

lemma round_num:
  assumes "0 < p" and "- 1074 \<le> int (bit_length p) - 1 + int k - 52"
  shows "round_to_double s (p * 2 ^ k) 1
           = pack s (mantissa_of p) (int (bit_length p) - 1 + int k - 52)"
proof -
  from bit_length_pos[OF assms(1)] obtain l where l: "bit_length p = Suc l"
    by (cases "bit_length p") auto
  define e where "e = int l + int k - 52"
  have fl: "floor_log2 (p * 2 ^ k) 1 - 52 = e"
    using floor_log2_num[OF assms(1), of k] by (simp add: l e_def)
  have mx: "max e (- 1074) = e" using assms(2) l by (simp add: e_def)
  have m: "(if 0 \<le> e then round_half_even (p * 2 ^ k) (1 * 2 ^ nat e)
            else round_half_even (p * 2 ^ k * 2 ^ nat (- e)) 1) = mantissa_of p"
  proof (cases "0 \<le> e")
    case True
    show ?thesis
    proof (cases "l \<le> 52")
      case le: True
      have "k = (52 - l) + nat e" using True le by (simp add: e_def)
      then have eq: "p * 2 ^ k = (p * 2 ^ (52 - l)) * 2 ^ nat e"
        by (metis mult.assoc power_add)
      have "round_half_even (p * 2 ^ k) (2 ^ nat e) = p * 2 ^ (52 - l)"
        unfolding eq by (rule round_half_even_self) simp
      with True le show ?thesis
        by (simp add: mantissa_of_def l)
    next
      case gt: False
      have "nat e = (l - 52) + k" using True gt by (simp add: e_def)
      then have "(2::nat) ^ nat e = 2 ^ (l - 52) * 2 ^ k" by (simp add: power_add)
      with True gt show ?thesis
        by (simp add: mantissa_of_def l round_half_even_cancel)
    qed
  next
    case False
    then have le: "l \<le> 52" by (simp add: e_def)
    have "52 - l = k + nat (- e)" using False by (simp add: e_def)
    then have "p * 2 ^ k * 2 ^ nat (- e) = p * 2 ^ (52 - l)"
      by (simp add: power_add)
    then have "round_half_even (p * 2 ^ k * 2 ^ nat (- e)) 1 = p * 2 ^ (52 - l)"
      by (simp only: round_half_even_one)
    with False le show ?thesis
      by (simp add: mantissa_of_def l)
  qed
  have ex: "int (bit_length p) - 1 + int k - 52 = e" by (simp add: l e_def)
  show ?thesis
    unfolding round_to_double_def Let_def fl mx m ex pack_def ..
qed

lemma round_den:
  assumes "0 < p" and "- 1074 \<le> int (bit_length p) - 1 - int f - 52"
  shows "round_to_double s p (2 ^ f)
           = pack s (mantissa_of p) (int (bit_length p) - 1 - int f - 52)"
proof -
  from bit_length_pos[OF assms(1)] obtain l where l: "bit_length p = Suc l"
    by (cases "bit_length p") auto
  define e where "e = int l - int f - 52"
  have fl: "floor_log2 p (2 ^ f) - 52 = e"
    using floor_log2_den[OF assms(1), of f] by (simp add: l e_def)
  have mx: "max e (- 1074) = e" using assms(2) l by (simp add: e_def)
  have m: "(if 0 \<le> e then round_half_even p (2 ^ f * 2 ^ nat e)
            else round_half_even (p * 2 ^ nat (- e)) (2 ^ f)) = mantissa_of p"
  proof (cases "0 \<le> e")
    case True
    show ?thesis
    proof (cases "l \<le> 52")
      case le: True
      with True have "f = 0" "nat e = 0" "l = 52" by (simp_all add: e_def)
      then show ?thesis using True
        by (simp add: mantissa_of_def l round_half_even_one round_half_even_Suc_0)
    next
      case gt: False
      have "l - 52 = f + nat e" using True gt by (simp add: e_def)
      then have "(2::nat) ^ (l - 52) = 2 ^ f * 2 ^ nat e" by (simp add: power_add)
      with True gt show ?thesis
        by (simp add: mantissa_of_def l)
    qed
  next
    case False
    show ?thesis
    proof (cases "l \<le> 52")
      case le: True
      have "nat (- e) = (52 - l) + f" using False le by (simp add: e_def)
      then have eq: "p * 2 ^ nat (- e) = (p * 2 ^ (52 - l)) * 2 ^ f"
        by (simp add: power_add)
      have "round_half_even (p * 2 ^ nat (- e)) (2 ^ f) = p * 2 ^ (52 - l)"
        unfolding eq by (rule round_half_even_self) simp
      with False le show ?thesis
        by (simp add: mantissa_of_def l)
    next
      case gt: False
      have "f = (l - 52) + nat (- e)" using \<open>\<not> 0 \<le> e\<close> gt by (simp add: e_def)
      then have "(2::nat) ^ f = 2 ^ (l - 52) * 2 ^ nat (- e)" by (simp add: power_add)
      with \<open>\<not> 0 \<le> e\<close> gt show ?thesis
        by (simp add: mantissa_of_def l round_half_even_cancel)
    qed
  qed
  have ex: "int (bit_length p) - 1 - int f - 52 = e" by (simp add: l e_def)
  show ?thesis
    unfolding round_to_double_def Let_def fl mx m ex pack_def ..
qed

lemma pow2_split: "a \<le> b \<Longrightarrow> (2::nat) ^ a * 2 ^ (b - a) = 2 ^ b"
  by (metis le_add_diff_inverse power_add)

lemma float_mul_unclipped:
  assumes "0 < m1" "0 < m2"
    and "- 1074 \<le> int (bit_length (m1 * m2)) - 1 + (e1 + e2) - 52"
  shows "float_mul (Finite s1 m1 e1) (Finite s2 m2 e2)
           = pack (s1 \<noteq> s2) (mantissa_of (m1 * m2))
               (int (bit_length (m1 * m2)) - 1 + (e1 + e2) - 52)"
proof (cases "0 \<le> e1 + e2")
  case True
  define k where "k = nat (e1 + e2)"
  have k: "int k = e1 + e2" using True by (simp add: k_def)
  have p: "0 < m1 * m2" using assms(1,2) by simp
  have "float_mul (Finite s1 m1 e1) (Finite s2 m2 e2)
          = round_to_double (s1 \<noteq> s2) (m1 * m2 * 2 ^ k) 1"
    using True assms(1,2) by (simp add: k_def)
  also have "\<dots> = pack (s1 \<noteq> s2) (mantissa_of (m1 * m2))
               (int (bit_length (m1 * m2)) - 1 + int k - 52)"
    by (rule round_num[OF p]) (use assms(3) k in simp)
  finally show ?thesis by (simp add: k)
next
  case False
  define f where "f = nat (- (e1 + e2))"
  have f: "int f = - (e1 + e2)" using False by (simp add: f_def)
  have p: "0 < m1 * m2" using assms(1,2) by simp
  have "float_mul (Finite s1 m1 e1) (Finite s2 m2 e2)
          = round_to_double (s1 \<noteq> s2) (m1 * m2) (2 ^ f)"
    using False assms(1,2) by (simp add: f_def)
  also have "\<dots> = pack (s1 \<noteq> s2) (mantissa_of (m1 * m2))
               (int (bit_length (m1 * m2)) - 1 - int f - 52)"
    by (rule round_den[OF p]) (use assms(3) f in simp)
  finally show ?thesis by (simp add: f)
qed

lemma float_mul_clipped:
  assumes "0 < m1" "0 < m2"
    and "int (bit_length (m1 * m2)) - 1 + (e1 + e2) - 52 < - 1074"
  shows "\<exists>m. float_mul (Finite s1 m1 e1) (Finite s2 m2 e2) = Finite (s1 \<noteq> s2) m (- 1074)"
proof -
  define p where "p = m1 * m2"
  have p: "0 < p" using assms(1,2) by (simp add: p_def)
  from bit_length_pos[OF p] obtain l where l: "bit_length p = Suc l"
    by (cases "bit_length p") auto
  from assms(3) l have neg: "\<not> 0 \<le> e1 + e2" by (simp add: p_def)
  define f where "f = nat (- (e1 + e2))"
  have f: "int f = - (e1 + e2)" using neg by (simp add: f_def)
  have fl: "floor_log2 p (2 ^ f) - 52 = int l - int f - 52"
    using floor_log2_den[OF p, of f] by (simp add: l)
  have clip: "int l - int f - 52 < - 1074" using assms(3) l f by (simp add: p_def)
  then have mx: "max (int l - int f - 52) (- 1074) = - 1074" by simp
  from clip have "Suc l + 1074 \<le> 52 + f" by linarith
  then obtain d where d: "52 + f = Suc l + 1074 + d" using le_Suc_ex by blast
  from bit_length_bounds[OF p] l have "p < 2 ^ Suc l" by simp
  then have "p * 2 ^ 1074 < 2 ^ Suc l * 2 ^ 1074" by simp
  also have "\<dots> \<le> 2 ^ Suc l * 2 ^ 1074 * 2 ^ d" by simp
  also have "\<dots> = 2 ^ (52 + f)" unfolding d by (simp only: power_add)
  also have "\<dots> = 2 ^ 52 * 2 ^ f" by (simp only: power_add)
  finally have "p * 2 ^ 1074 < 2 ^ 52 * 2 ^ f" .
  from round_half_even_bounds[of "2 ^ f" 0 "p * 2 ^ 1074" "2 ^ 52"] this
  have "round_half_even (p * 2 ^ 1074) (2 ^ f) \<le> 2 ^ 52" by simp
  then have ne: "round_half_even (p * 2 ^ 1074) (2 ^ f) \<noteq> 2 ^ 53" by simp
  have "round_to_double (s1 \<noteq> s2) p (2 ^ f)
          = Finite (s1 \<noteq> s2) (round_half_even (p * 2 ^ 1074) (2 ^ f)) (- 1074)"
    unfolding round_to_double_def Let_def fl mx using ne by simp
  with neg assms(1,2) show ?thesis
    by (simp add: p_def f_def)
qed

lemma mantissa_bounds:
  assumes "0 < p"
  shows "2 ^ 52 \<le> mantissa_of p \<and> mantissa_of p \<le> 2 ^ 53"
proof -
  from bit_length_pos[OF assms] obtain l where l: "bit_length p = Suc l"
    by (cases "bit_length p") auto
  from bit_length_bounds[OF assms] l have b: "2 ^ l \<le> p" "p < 2 ^ Suc l" by auto
  show ?thesis
  proof (cases "l \<le> 52")
    case True
    have e: "(2::nat) ^ l * 2 ^ (52 - l) = 2 ^ 52"
      using True by (rule pow2_split)
    have "(2::nat) ^ Suc l * 2 ^ (52 - l) = 2 * (2 ^ l * 2 ^ (52 - l))" by simp
    then have e': "(2::nat) ^ Suc l * 2 ^ (52 - l) = 2 ^ 53"
      unfolding e by simp
    from b(1) have "2 ^ l * 2 ^ (52 - l) \<le> p * 2 ^ (52 - l)" by simp
    then have lo: "2 ^ 52 \<le> p * 2 ^ (52 - l)" unfolding e .
    from b(2) have "p * 2 ^ (52 - l) < 2 ^ Suc l * 2 ^ (52 - l)" by simp
    then have hi: "p * 2 ^ (52 - l) < 2 ^ 53" unfolding e' .
    from lo hi True show ?thesis
      by (simp add: mantissa_of_def l)
  next
    case False
    have e: "(2::nat) ^ 52 * 2 ^ (l - 52) = 2 ^ l"
      using False by (intro pow2_split) simp
    have "(2::nat) ^ 53 * 2 ^ (l - 52) = 2 * (2 ^ 52 * 2 ^ (l - 52))" by simp
    then have e': "(2::nat) ^ 53 * 2 ^ (l - 52) = 2 ^ Suc l"
      unfolding e by simp
    have z: "(0::nat) < 2 ^ (l - 52)" by simp
    have lo: "2 ^ 52 * 2 ^ (l - 52) \<le> p" unfolding e by (rule b(1))
    have hi: "p < 2 ^ 53 * 2 ^ (l - 52)" unfolding e' by (rule b(2))
    from round_half_even_bounds[OF z lo hi] False show ?thesis
      by (simp add: mantissa_of_def l)
  qed
qed

lemma pack_Finite:
  "pack s m e = Finite s' m' e' \<longleftrightarrow>
     s' = s \<and> (if m = 2 ^ 53 then m' = 2 ^ 52 \<and> e' = e + 1 \<and> e + 1 \<le> 971
               else m' = m \<and> e' = e \<and> e \<le> 971)"
  by (auto simp: pack_def)

lemma float_mul_pow2:
  assumes "2 ^ 52 \<le> m" "m < 2 ^ 53" "- 1074 \<le> e + j" "e + j \<le> 971"
  shows "float_mul (Finite False (2 ^ 52) (j - 52)) (Finite s m e) = Finite s m (e + j)"
proof -
  have m: "0 < m" using assms(1) by (metis less_le_trans zero_less_numeral zero_less_power)
  have lo: "2 ^ 104 \<le> 2 ^ 52 * m"
  proof -
    have "(2::nat) ^ 52 * 2 ^ 52 \<le> 2 ^ 52 * m" using assms(1) by simp
    then show ?thesis by (simp only: power_add[symmetric]) simp
  qed
  have hi: "2 ^ 52 * m < 2 ^ Suc 104"
  proof -
    have "2 ^ 52 * m < (2::nat) ^ 52 * 2 ^ 53" using assms(2) by simp
    then show ?thesis by (simp only: power_add[symmetric]) simp
  qed
  have bl: "bit_length (2 ^ 52 * m) = 105"
    using bit_length_eqI[OF lo hi] by simp
  have "round_half_even (m * 2 ^ 52) (2 ^ 52) = m"
    by (rule round_half_even_self) simp
  then have mant: "mantissa_of (2 ^ 52 * m) = m"
    unfolding mantissa_of_def Let_def bl by (simp add: mult.commute)
  have z: "(0::nat) < 2 ^ 52" by simp
  have cond: "- 1074 \<le> int (bit_length (2 ^ 52 * m)) - 1 + (j - 52 + e) - 52"
    unfolding bl using assms(3) by simp
  have "float_mul (Finite False (2 ^ 52) (j - 52)) (Finite s m e)
          = pack (False \<noteq> s) (mantissa_of (2 ^ 52 * m))
               (int (bit_length (2 ^ 52 * m)) - 1 + (j - 52 + e) - 52)"
    by (rule float_mul_unclipped[OF z m cond])
  also have "\<dots> = pack s m (e + j)"
    unfolding mant bl by (simp add: add.commute)
  also have "\<dots> = Finite s m (e + j)"
    using assms(2,4) by (simp add: pack_def)
  finally show ?thesis .
qed

lemma float_mul_scale_pow2:
  assumes "2 ^ 52 \<le> ma" "ma < 2 ^ 53" "- 1074 \<le> ea + j" "ea + j \<le> 971"
    and "0 < mc"
    and "float_mul (Finite sa ma ea) (Finite sc mc ec) = Finite s1 m1 e1" "- 1073 \<le> e1"
    and "float_mul (Finite sa ma (ea + j)) (Finite sc mc ec) = Finite s2 m2 e2" "- 1073 \<le> e2"
  shows "float_mul (float_mul (Finite False (2 ^ 52) (j - 52)) (Finite sa ma ea)) (Finite sc mc ec)
           = float_mul (Finite False (2 ^ 52) (j - 52))
               (float_mul (Finite sa ma ea) (Finite sc mc ec))"
proof -
  have ma: "0 < ma" using assms(1) by (metis less_le_trans zero_less_numeral zero_less_power)
  define x where "x = int (bit_length (ma * mc)) - 1 + (ea + ec) - 52"
  have p: "0 < ma * mc" using ma assms(5) by simp
  have unclipped1: "- 1074 \<le> x"
  proof (rule ccontr)
    assume "\<not> - 1074 \<le> x"
    then have "x < - 1074" by simp
    from float_mul_clipped[OF ma assms(5) this[unfolded x_def], of sa sc] assms(6,7)
    show False by auto
  qed
  have unclipped2: "- 1074 \<le> x + j"
  proof (rule ccontr)
    assume "\<not> - 1074 \<le> x + j"
    then have "int (bit_length (ma * mc)) - 1 + (ea + j + ec) - 52 < - 1074"
      by (simp add: x_def)
    from float_mul_clipped[OF ma assms(5) this, of sa sc] assms(8,9)
    show False by auto
  qed
  have c1: "- 1074 \<le> int (bit_length (ma * mc)) - 1 + (ea + ec) - 52"
    using unclipped1 by (simp add: x_def)
  have r1: "pack (sa \<noteq> sc) (mantissa_of (ma * mc)) x = Finite s1 m1 e1"
    unfolding x_def float_mul_unclipped[OF ma assms(5) c1, of sa sc, symmetric]
    by (rule assms(6))
  have ex: "int (bit_length (ma * mc)) - 1 + (ea + j + ec) - 52 = x + j"
    by (simp add: x_def)
  have c2: "- 1074 \<le> int (bit_length (ma * mc)) - 1 + (ea + j + ec) - 52"
    unfolding ex by (rule unclipped2)
  have r2: "pack (sa \<noteq> sc) (mantissa_of (ma * mc)) (x + j) = Finite s2 m2 e2"
    unfolding float_mul_unclipped[OF ma assms(5) c2, of sa sc, unfolded ex, symmetric]
    by (rule assms(8))
  note mb = mantissa_bounds[OF p]
  from r1 r2 have same: "s2 = s1" "m2 = m1" "e2 = e1 + j"
    unfolding pack_Finite by (auto split: if_splits)
  from r1 mb have norm: "2 ^ 52 \<le> m1" "m1 < 2 ^ 53"
    unfolding pack_Finite by (auto split: if_splits)
  from r2 have "e2 \<le> 971"
    unfolding pack_Finite by (auto split: if_splits)
  with same assms(9) have range: "- 1074 \<le> e1 + j" "e1 + j \<le> 971" by simp_all
  have "float_mul (float_mul (Finite False (2 ^ 52) (j - 52)) (Finite sa ma ea)) (Finite sc mc ec)
          = float_mul (Finite sa ma (ea + j)) (Finite sc mc ec)"
    by (simp only: float_mul_pow2[OF assms(1-4)])
  also have "\<dots> = Finite s1 m1 (e1 + j)"
    using assms(8) same by simp
  also have "\<dots> = float_mul (Finite False (2 ^ 52) (j - 52)) (Finite s1 m1 e1)"
    by (simp only: float_mul_pow2[OF norm range])
  finally show ?thesis by (simp only: assms(6))
qed

lemma perform_conversion_cross_rate:
  assumes "perform_conversion str_of snapshot src tgt amount = Inr r"
  shows "\<exists>c. \<forall>a. perform_conversion str_of snapshot src tgt a = Inr (float_mul a c)"
proof -
  from assms obtain rates where 1: "py_getitem snapshot ''rates'' = Inr rates"
    by (cases "py_getitem snapshot ''rates''") (auto simp: perform_conversion_def)
  from assms 1 have 2: "py_contains rates src = Inr True"
    by (cases "py_contains rates src") (auto simp: perform_conversion_def split: bool.splits)
  from assms 1 2 have 3: "py_contains rates tgt = Inr True"
    by (cases "py_contains rates tgt") (auto simp: perform_conversion_def split: bool.splits)
  from assms 1 2 3 obtain src_rate where 4: "py_getitem rates src = Inr src_rate"
    by (cases "py_getitem rates src") (auto simp: perform_conversion_def)
  from assms 1 2 3 4 obtain tgt_rate where 5: "py_getitem rates tgt = Inr tgt_rate"
    by (cases "py_getitem rates tgt") (auto simp: perform_conversion_def)
  from assms 1 2 3 4 5 have 6: "py_le_zero src_rate = Inr False"
    by (cases "py_le_zero src_rate") (auto simp: perform_conversion_def split: bool.splits)
  from assms 1 2 3 4 5 6 have 7: "py_le_zero tgt_rate = Inr False"
    by (cases "py_le_zero tgt_rate") (auto simp: perform_conversion_def split: bool.splits)
  from assms 1 2 3 4 5 6 7 obtain c where 8: "py_truediv tgt_rate src_rate = Inr c"
    by (cases "py_truediv tgt_rate src_rate") (auto simp: perform_conversion_def)
  have "\<forall>a. perform_conversion str_of snapshot src tgt a = Inr (float_mul a c)"
    by (simp add: perform_conversion_def 1 2 3 4 5 6 7 8)
  then show ?thesis ..
qed

text \<open>
  C9 is false of the code: float multiplication rounds, so scaling the amount and scaling
  the result can differ in the last bit.  With rates USD 1.0 and EUR 0.9, converting
  \<open>3.0 * 3.0\<close> gives \<open>4559894622712627 * 2^-49\<close> (8.1), and \<open>3.0\<close> times the conversion of
  \<open>3.0\<close> gives \<open>4559894622712628 * 2^-49\<close> (8.100000000000001).
\<close>

theorem scaling_by_three_differs:
  "perform_conversion example_str_of usd_body ''USD'' ''EUR''
      (float_mul (Finite False 6755399441055744 (- 51)) (Finite False 6755399441055744 (- 51)))
     = Inr (Finite False 4559894622712627 (- 49))
   \<and> perform_conversion example_str_of usd_body ''USD'' ''EUR''
      (Finite False 6755399441055744 (- 51))
     = Inr (Finite False 6079859496950170 (- 51))
   \<and> float_mul (Finite False 6755399441055744 (- 51)) (Finite False 6079859496950170 (- 51))
     = Finite False 4559894622712628 (- 49)
   \<and> Finite False 4559894622712627 (- 49) \<noteq> Finite False 4559894622712628 (- 49)"
  by (simp add: perform_conversion_def usd_body_def float_truediv_def round_to_double_def
      round_half_even_def floor_log2_def Let_def bit_length.simps)

text \<open>
  C9, as amended.  For \<open>k\<close> a power of two, an amount that is a normal double, \<open>k\<close> times
  the amount in the normal range too, and both conversions returning finite numbers of
  magnitude \<open>2^-1021\<close> or more: converting \<open>k\<close> times the amount gives exactly \<open>k\<close> times
  the conversion of the amount.
\<close>

theorem scaling_by_power_of_two:
  assumes "2 ^ 52 \<le> ma" "ma < 2 ^ 53" "- 1074 \<le> ea + j" "ea + j \<le> 971"
    and "perform_conversion str_of snapshot src tgt (Finite sa ma ea)
           = Inr (Finite s1 m1 e1)"
    and "- 1073 \<le> e1"
    and "perform_conversion str_of snapshot src tgt
           (float_mul (power_of_two j) (Finite sa ma ea)) = Inr (Finite s2 m2 e2)"
    and "- 1073 \<le> e2"
  shows "perform_conversion str_of snapshot src tgt
           (float_mul (power_of_two j) (Finite sa ma ea))
         = Inr (float_mul (power_of_two j) (Finite s1 m1 e1))"
proof -
  from perform_conversion_cross_rate[OF assms(5)] obtain c where
    c: "\<And>a. perform_conversion str_of snapshot src tgt a = Inr (float_mul a c)"
    by blast
  have r1: "float_mul (Finite sa ma ea) c = Finite s1 m1 e1"
    using assms(5) by (simp add: c)
  have ka: "float_mul (power_of_two j) (Finite sa ma ea) = Finite sa ma (ea + j)"
    unfolding power_of_two_def by (rule float_mul_pow2[OF assms(1-4)])
  have r2: "float_mul (Finite sa ma (ea + j)) c = Finite s2 m2 e2"
    using assms(7) by (simp add: c ka)
  have ma: "0 < ma" using assms(1) by (metis less_le_trans zero_less_numeral zero_less_power)
  obtain sc mc ec where fin: "c = Finite sc mc ec" "0 < mc"
  proof (cases c)
    case (Finite sc mc ec)
    show ?thesis
    proof (cases "mc = 0")
      case True
      with r1 Finite assms(6) show ?thesis by simp
    next
      case False
      with Finite that show ?thesis by simp
    qed
  next
    case (Infinity sc)
    with r1 ma show ?thesis by simp
  next
    case NaN
    with r1 show ?thesis by simp
  qed
  have "float_mul (float_mul (Finite False (2 ^ 52) (j - 52)) (Finite sa ma ea)) (Finite sc mc ec)
           = float_mul (Finite False (2 ^ 52) (j - 52))
               (float_mul (Finite sa ma ea) (Finite sc mc ec))"
    by (rule float_mul_scale_pow2[OF assms(1-4) fin(2) r1[unfolded fin(1)] assms(6)
          r2[unfolded fin(1)] assms(8)])
  then have "float_mul (float_mul (power_of_two j) (Finite sa ma ea)) c
           = float_mul (power_of_two j) (Finite s1 m1 e1)"
    by (simp only: power_of_two_def fin(1)[symmetric] r1)
  then show ?thesis by (simp only: c)
qed

lemma doubling_example:
  "perform_conversion example_str_of usd_body ''USD'' ''EUR''
      (Finite False 6755399441055744 (- 51))
     = Inr (Finite False 6079859496950170 (- 51))"
  "perform_conversion example_str_of usd_body ''USD'' ''EUR''
      (float_mul (power_of_two 1) (Finite False 6755399441055744 (- 51)))
     = Inr (Finite False 6079859496950170 (- 50))"
  by (simp_all add: perform_conversion_def usd_body_def float_truediv_def round_to_double_def
      round_half_even_def floor_log2_def Let_def bit_length.simps power_of_two_def)

theorem scaling_by_power_of_two_witness:
  "(2::nat) ^ 52 \<le> 6755399441055744 \<and> (6755399441055744::nat) < 2 ^ 53
   \<and> perform_conversion example_str_of usd_body ''USD'' ''EUR''
        (Finite False 6755399441055744 (- 51))
      = Inr (Finite False 6079859496950170 (- 51))
   \<and> perform_conversion example_str_of usd_body ''USD'' ''EUR''
        (float_mul (power_of_two 1) (Finite False 6755399441055744 (- 51)))
      = Inr (float_mul (power_of_two 1) (Finite False 6079859496950170 (- 51)))
   \<and> float_mul (power_of_two 1) (Finite False 6079859496950170 (- 51))
      = Finite False 6079859496950170 (- 50)"
proof -
  have a: "(2::nat) ^ 52 \<le> 6755399441055744" "(6755399441055744::nat) < 2 ^ 53"
    "- 1074 \<le> (- 51 :: int) + 1" "(- 51 :: int) + 1 \<le> 971"
    "- 1073 \<le> (- 51 :: int)" "- 1073 \<le> (- 50 :: int)"
    by simp_all
  note w = scaling_by_power_of_two [OF a(1-4) doubling_example(1) a(5) doubling_example(2) a(6)]
  have "float_mul (power_of_two 1) (Finite False 6079859496950170 (- 51))
      = Finite False 6079859496950170 (- 50)"
    using w doubling_example(2) by simp
  with w a doubling_example show ?thesis by simp
qed

lemma is_number_le_zero: "is_number v \<Longrightarrow> \<exists>b. py_le_zero v = Inr b"
  by (cases v) auto

lemma round_integer:
  assumes "0 < p"
  shows "round_to_double s p 1 = Infinity s
       \<or> (\<exists>m e. round_to_double s p 1 = Finite s m e \<and> 0 < m)"
proof -
  have c: "- 1074 \<le> int (bit_length p) - 1 + int 0 - 52"
    using bit_length_pos[OF assms] by simp
  from round_num[OF assms c, of s] have r:
    "round_to_double s p 1 = pack s (mantissa_of p) (int (bit_length p) - 1 + int 0 - 52)"
    by simp
  from mantissa_bounds[OF assms] have "0 < mantissa_of p"
    by (metis less_le_trans zero_less_numeral zero_less_power)
  then show ?thesis unfolding r pack_def by auto
qed

lemma int_to_double_positive:
  assumes "0 < i"
  shows "int_to_double i = Inl OverflowError
       \<or> (\<exists>x. int_to_double i = Inr x \<and> \<not> double_is_zero x)"
proof -
  from assms have p: "0 < nat \<bar>i\<bar>" by simp
  from round_integer[OF p, of "i < 0"] assms show ?thesis
    by (auto simp: int_to_double_def)
qed

lemma int_truediv_positive:
  assumes "0 < i" "0 < j"
  shows "int_truediv i j = Inl OverflowError \<or> (\<exists>x. int_truediv i j = Inr x)"
  using assms by (auto simp: int_truediv_def split: double.splits)

lemma float_truediv_nonzero: "\<not> double_is_zero y \<Longrightarrow> float_truediv x y = Inr (float_div x y)"
  by (simp add: float_truediv_def)

lemma py_truediv_floats:
  "py_le_zero (PyFloat x) = Inr False \<Longrightarrow>
     py_truediv (PyFloat y) (PyFloat x) = Inr (float_div y x)"
  using le_zero_or_not_zero[of x] by (simp add: float_truediv_def)

lemma py_truediv_numbers:
  assumes "is_number s" "is_number t"
    and "py_le_zero s = Inr False" "py_le_zero t = Inr False"
  shows "py_truediv t s = Inl OverflowError \<or> (\<exists>c. py_truediv t s = Inr c)"
proof -
  have one: "int_to_double 1 = Inl OverflowError
       \<or> (\<exists>x. int_to_double 1 = Inr x \<and> \<not> double_is_zero x)"
    by (rule int_to_double_positive) simp
  show ?thesis
  proof (cases s)
    case (PyFloat x)
    with assms(3) have x: "\<not> double_is_zero x"
      using le_zero_or_not_zero[of x] by simp
    show ?thesis
    proof (cases t)
      case (PyFloat y)
      with \<open>s = PyFloat x\<close> x show ?thesis by (simp add: float_truediv_def)
    next
      case (PyInt i)
      with assms(4) have "0 < i" by simp
      from int_to_double_positive[OF this] PyInt \<open>s = PyFloat x\<close> x show ?thesis
        by (auto simp: float_truediv_def)
    next
      case (PyBool b)
      with assms(4) have "b" by simp
      with one PyBool \<open>s = PyFloat x\<close> x show ?thesis
        by (auto simp: float_truediv_def)
    qed (use assms(2) in simp_all)
  next
    case (PyInt j)
    with assms(3) have j: "0 < j" by simp
    note dj = int_to_double_positive[OF j]
    show ?thesis
    proof (cases t)
      case (PyFloat y)
      with dj \<open>s = PyInt j\<close> show ?thesis by (auto simp: float_truediv_def)
    next
      case (PyInt i)
      with assms(4) have "0 < i" by simp
      from int_truediv_positive[OF this j] PyInt \<open>s = PyInt j\<close> show ?thesis by simp
    next
      case (PyBool b)
      with assms(4) have "b" by simp
      with int_truediv_positive[of 1 j] j PyBool \<open>s = PyInt j\<close> show ?thesis by simp
    qed (use assms(2) in simp_all)
  next
    case (PyBool c)
    with assms(3) have c: "c" by simp
    show ?thesis
    proof (cases t)
      case (PyFloat y)
      with one c \<open>s = PyBool c\<close> show ?thesis by (auto simp: float_truediv_def)
    next
      case (PyInt i)
      with assms(4) have "0 < i" by simp
      from int_truediv_positive[OF this, of 1] PyInt c \<open>s = PyBool c\<close> show ?thesis by simp
    next
      case (PyBool b)
      with assms(4) have "b" by simp
      with int_truediv_positive[of 1 1] c PyBool \<open>s = PyBool c\<close> show ?thesis by simp
    qed (use assms(2) in simp_all)
  qed (use assms(1) in simp_all)
qed

lemma int_to_double_huge: "int_to_double huge_integer = Inl OverflowError"
proof -
  have p: "(0::nat) < 1" by simp
  have c: "- 1074 \<le> int (bit_length 1) - 1 + int 1024 - 52"
    by (simp add: bit_length_one)
  have m: "mantissa_of 1 = 2 ^ 52"
    by (simp add: mantissa_of_def bit_length_Suc_0)
  have "round_to_double False (1 * 2 ^ 1024) 1
          = pack False (mantissa_of 1) (int (bit_length 1) - 1 + int 1024 - 52)"
    by (rule round_num[OF p c])
  also have "\<dots> = Infinity False"
    unfolding m by (simp add: pack_def bit_length_Suc_0)
  finally have r: "round_to_double False (2 ^ 1024) 1 = Infinity False"
    by (simp only: mult_1)
  have n: "nat \<bar>huge_integer\<bar> = 2 ^ 1024" "\<not> huge_integer < 0" "huge_integer \<noteq> 0"
    by (simp_all add: huge_integer_def)
  show ?thesis
    by (simp only: int_to_double_def n if_False r double.case)
qed

text \<open>
  C2 is false of the code.  With a float rate for USD and the integer \<open>2^1024\<close> as the
  rate of EUR, both codes are keys with rates above zero, and the conversion raises
  \<^verbatim>\<open>OverflowError\<close> (the integer has no double), an error of neither kind.  And with a
  source whose rate is zero and a target that is not a key, the error is the one of an
  unknown currency, although a present code has a rate \<open>\<le> 0\<close>.
\<close>

theorem huge_integer_rate_overflows:
  "has_positive_rate huge_rate_snapshot ''USD''
   \<and> has_positive_rate huge_rate_snapshot ''EUR''
   \<and> perform_conversion example_str_of huge_rate_snapshot ''USD'' ''EUR''
        (Finite False 7036874417766400 (- 46)) = Inl OverflowError
   \<and> \<not> is_unknown_currency (Inl OverflowError)
   \<and> \<not> is_invalid_rate (Inl OverflowError)
   \<and> perform_conversion example_str_of zero_rate_stamped ''RUB'' ''GBP''
        (Finite False 7036874417766400 (- 46))
      = Inl (ValueError ''Target currency GBP is not available in the data'')
   \<and> \<not> is_invalid_rate (Inl (ValueError ''Target currency GBP is not available in the data''))"
proof -
  have pos: "0 < huge_integer" "\<not> huge_integer \<le> 0"
    by (simp_all add: huge_integer_def)
  have "has_positive_rate huge_rate_snapshot ''USD''"
    "has_positive_rate huge_rate_snapshot ''EUR''"
    by (simp_all add: has_positive_rate_def huge_rate_snapshot_def pos)
  moreover have "perform_conversion example_str_of huge_rate_snapshot ''USD'' ''EUR''
        (Finite False 7036874417766400 (- 46)) = Inl OverflowError"
    by (simp add: perform_conversion_def huge_rate_snapshot_def pos int_to_double_huge)
  moreover have "\<not> is_unknown_currency (Inl OverflowError)"
    "\<not> is_invalid_rate (Inl OverflowError)"
    by (simp_all add: is_unknown_currency_def is_invalid_rate_def)
  moreover have "perform_conversion example_str_of zero_rate_stamped ''RUB'' ''GBP''
        (Finite False 7036874417766400 (- 46))
      = Inl (ValueError ''Target currency GBP is not available in the data'')"
    by (simp add: perform_conversion_def zero_rate_stamped_def)
  moreover have
    "\<not> is_invalid_rate (Inl (ValueError ''Target currency GBP is not available in the data''))"
    by (simp add: is_invalid_rate_def is_suffix_def)
  ultimately show ?thesis by blast
qed

text \<open>
  C2, as amended.  For a snapshot whose rates for the two codes are numbers,
  \<^verbatim>\<open>perform_conversion\<close> raises the error of an unknown currency exactly when one of the
  codes is not a key of the rates; the error of an invalid rate exactly when both are keys
  and one of the two rates is \<open>\<le> 0\<close>; \<^verbatim>\<open>OverflowError\<close> exactly when both are keys, neither
  rate is \<open>\<le> 0\<close> and the division of the rates overflows, which two float rates never do;
  and nothing else.  No error is of both kinds: the two are \<^verbatim>\<open>ValueError\<close>s told apart by
  their messages.
\<close>

theorem conversion_failure_kinds_of_numbers:
  assumes "py_getitem snapshot ''rates'' = Inr (PyDict rs)"
    and "\<forall>rate. map_of rs src = Some rate \<or> map_of rs tgt = Some rate \<longrightarrow> is_number rate"
  shows "let r = perform_conversion str_of snapshot src tgt amount in
       is_unknown_currency r = (map_of rs src = None \<or> map_of rs tgt = None)
     \<and> is_invalid_rate r
         = (\<exists>s t. map_of rs src = Some s \<and> map_of rs tgt = Some t
                 \<and> (py_le_zero s = Inr True \<or> py_le_zero t = Inr True))
     \<and> (r = Inl OverflowError)
         = (\<exists>s t. map_of rs src = Some s \<and> map_of rs tgt = Some t
                 \<and> py_le_zero s = Inr False \<and> py_le_zero t = Inr False
                 \<and> py_truediv t s = Inl OverflowError)
     \<and> (\<exists>e. r = Inl e) = (is_unknown_currency r \<or> is_invalid_rate r \<or> r = Inl OverflowError)
     \<and> ((\<exists>x y. map_of rs src = Some (PyFloat x) \<and> map_of rs tgt = Some (PyFloat y))
          \<longrightarrow> r \<noteq> Inl OverflowError)
     \<and> \<not> (is_unknown_currency r \<and> is_invalid_rate r)"
proof (cases "map_of rs src")
  case None
  then show ?thesis
    by (simp add: perform_conversion_dict[OF assms(1)] is_unknown_currency_def
        is_invalid_rate_def is_suffix_def)
next
  case (Some s)
  with assms(2) have ns: "is_number s" by simp
  show ?thesis
  proof (cases "map_of rs tgt")
    case None
    with Some show ?thesis
      by (simp add: perform_conversion_dict[OF assms(1)] is_unknown_currency_def
          is_invalid_rate_def is_suffix_def)
  next
    case tgt: (Some t)
    with assms(2) have nt: "is_number t" by simp
    from is_number_le_zero[OF ns] obtain bs where bs: "py_le_zero s = Inr bs" by blast
    from is_number_le_zero[OF nt] obtain bt where bt: "py_le_zero t = Inr bt" by blast
    show ?thesis
    proof (cases bs)
      case True
      with Some tgt bs show ?thesis
        by (simp add: perform_conversion_dict[OF assms(1)] is_unknown_currency_def
            is_invalid_rate_def is_suffix_def)
    next
      case False
      note s_pos = this
      show ?thesis
      proof (cases bt)
        case True
        with Some tgt bs bt s_pos show ?thesis
          by (simp add: perform_conversion_dict[OF assms(1)] is_unknown_currency_def
              is_invalid_rate_def is_suffix_def)
      next
        case False
        from bs bt s_pos False have z: "py_le_zero s = Inr False" "py_le_zero t = Inr False"
          by simp_all
        have fl: "\<And>x y. s = PyFloat x \<Longrightarrow> t = PyFloat y
                    \<Longrightarrow> py_truediv t s \<noteq> Inl OverflowError"
          using z(1) py_truediv_floats by auto
        from py_truediv_numbers[OF ns nt z] show ?thesis
        proof
          assume "py_truediv t s = Inl OverflowError"
          with Some tgt z fl show ?thesis
            by (auto simp: perform_conversion_dict[OF assms(1)] is_unknown_currency_def
                is_invalid_rate_def)
        next
          assume "\<exists>c. py_truediv t s = Inr c"
          then obtain c where "py_truediv t s = Inr c" ..
          with Some tgt z show ?thesis
            by (simp add: perform_conversion_dict[OF assms(1)] is_unknown_currency_def
                is_invalid_rate_def)
        qed
      qed
    qed
  qed
qed

lemma integer_zero_rate:
  "perform_conversion example_str_of unordered_snapshot ''USD'' ''GBP'' amount
     = Inl (ValueError ''Target currency rate GBP is ?, which is invalid'')"
  by (simp add: perform_conversion_def unordered_snapshot_def example_str_of_def)

theorem conversion_failure_kinds_of_numbers_witness:
  "py_getitem unordered_snapshot ''rates'' =
      Inr (PyDict [(''XYZ'', PyFloat (Finite False 4503599627370496 (- 52))),
                          (''RUB'', PyFloat (Finite False 6685030696878080 (- 46))),
                          (''JPY'', PyFloat (Finite True 4503599627370496 (- 52))),
                          (''GBP'', PyInt 0),
                          (''EUR'', PyFloat (Finite False 8106479329266893 (- 53))),
                          (''USD'', PyInt 1)])
   \<and> is_number (PyInt 1) \<and> is_number (PyInt 0)
   \<and> perform_conversion example_str_of unordered_snapshot ''USD'' ''GBP''
        (Finite False 7036874417766400 (- 46))
      = Inl (ValueError ''Target currency rate GBP is ?, which is invalid'')
   \<and> is_invalid_rate (perform_conversion example_str_of unordered_snapshot ''USD'' ''GBP''
        (Finite False 7036874417766400 (- 46)))
   \<and> \<not> is_unknown_currency (perform_conversion example_str_of unordered_snapshot ''USD'' ''GBP''
        (Finite False 7036874417766400 (- 46)))"
proof -
  define rs where "rs = [(''XYZ'', PyFloat (Finite False 4503599627370496 (- 52))),
                          (''RUB'', PyFloat (Finite False 6685030696878080 (- 46))),
                          (''JPY'', PyFloat (Finite True 4503599627370496 (- 52))),
                          (''GBP'', PyInt 0),
                          (''EUR'', PyFloat (Finite False 8106479329266893 (- 53))),
                          (''USD'', PyInt 1)]"
  have r: "py_getitem unordered_snapshot ''rates'' = Inr (PyDict rs)"
    by (simp add: unordered_snapshot_def rs_def)
  have f: "\<forall>rate. map_of rs ''USD'' = Some rate \<or> map_of rs ''GBP'' = Some rate
      \<longrightarrow> is_number rate"
    by (auto simp: rs_def)
  from conversion_failure_kinds_of_numbers [OF r f, of example_str_of
      "Finite False 7036874417766400 (- 46)"]
  have "is_invalid_rate (perform_conversion example_str_of unordered_snapshot ''USD'' ''GBP''
          (Finite False 7036874417766400 (- 46)))
      \<and> \<not> is_unknown_currency (perform_conversion example_str_of unordered_snapshot ''USD'' ''GBP''
          (Finite False 7036874417766400 (- 46)))"
    unfolding Let_def by (simp add: rs_def)
  with r integer_zero_rate show ?thesis by (simp add: rs_def)
qed

lemma bare_store_round:
  "conversion_round str_of usd_body (''USD'', ''US Dollar'') amount (''EUR'', ''Euro'')
     = ConversionError (KeyError ''date_fetched'')"
  by (simp add: conversion_round_def perform_conversion_def usd_body_def float_truediv_def
      date_fetched_text_def)

text \<open>
  C10 is false of the code in what it says of the result display.  With the store that
  holds only \<^verbatim>\<open>base\<close>, \<^verbatim>\<open>date\<close> and \<^verbatim>\<open>rates\<close>, the run ends in the status message and
  never reaches the display; and a round of the loop on that snapshot does not let the
  \<^verbatim>\<open>KeyError('date_fetched')\<close> of the display escape: the loop's handler catches it and
  shows it as a conversion error.
\<close>

theorem result_display_lookup_is_caught:
  "load_db example_str_of offline_bare_store = Some usd_body
   \<and> main_until_loop example_str_of offline_bare_store = Raises (KeyError ''timestamp'')
   \<and> conversion_round example_str_of usd_body (''USD'', ''US Dollar'')
        (Finite False 7036874417766400 (- 46)) (''EUR'', ''Euro'')
      = ConversionError (KeyError ''date_fetched'')"
proof -
  have v: "validate_api_response example_str_of usd_body None = Inr (True, ''Data is valid'')"
    by (simp add: validate_api_response_def usd_body_def)
  have l: "load_db example_str_of offline_bare_store = Some usd_body"
    by (simp add: load_db_def offline_bare_store_def v)
  have i: "\<not> check_internet offline_bare_store"
    by (simp add: check_internet_def offline_bare_store_def)
  have t: "truthy usd_body" by (simp add: usd_body_def)
  have d: "days_since offline_bare_store usd_body = Inl (KeyError ''timestamp'')"
    by (simp add: days_since_def usd_body_def)
  have s: "status_message (main_startup example_str_of offline_bare_store)
             = Inl (KeyError ''timestamp'')"
    by (simp add: main_startup_def Let_def i l display_status_message_def t d)
  have m: "main_until_loop example_str_of offline_bare_store = Raises (KeyError ''timestamp'')"
    by (simp add: main_until_loop_def Let_def s)
  from l m bare_store_round show ?thesis by simp
qed

text \<open>
  C10, as amended.  A store that holds only \<^verbatim>\<open>base\<close>, \<^verbatim>\<open>date\<close> and \<^verbatim>\<open>rates\<close> passes the
  validation of \<^verbatim>\<open>load_db\<close>.  In every world with that store and no provider answering,
  it is the active snapshot, and formatting the status message raises
  \<^verbatim>\<open>KeyError('timestamp')\<close>, which leaves \<^verbatim>\<open>main\<close> and ends the program with exit code 1.
  A store that has a timestamp and no \<^verbatim>\<open>date_fetched\<close> is accepted too, and the status
  message raises \<^verbatim>\<open>KeyError('date_fetched')\<close> in the same way.  The lookup of
  \<^verbatim>\<open>date_fetched\<close> in the result display is caught by the handler of the loop.
\<close>

theorem incomplete_store_raises_in_status_message:
  "let w' = w\<lparr> db_file := Stored usd_body, http_get := (\<lambda>url. RequestException) \<rparr>;
       w'' = w\<lparr> db_file := Stored usd_body_timestamp_only,
                http_get := (\<lambda>url. RequestException),
                fromtimestamp := (\<lambda>v. Inr t) \<rparr> in
     validate_api_response str_of usd_body None = Inr (True, ''Data is valid'')
     \<and> py_contains usd_body ''timestamp'' = Inr False
     \<and> py_contains usd_body ''date_fetched'' = Inr False
     \<and> load_db str_of w' = Some usd_body
     \<and> fresh_data (main_startup str_of w') = None
     \<and> rates_data (main_startup str_of w') = Some usd_body
     \<and> status_message (main_startup str_of w') = Inl (KeyError ''timestamp'')
     \<and> main_until_loop str_of w' = Raises (KeyError ''timestamp'')
     \<and> exit_code (main_until_loop str_of w') = Some 1
     \<and> py_contains usd_body_timestamp_only ''date_fetched'' = Inr False
     \<and> load_db str_of w'' = Some usd_body_timestamp_only
     \<and> rates_data (main_startup str_of w'') = Some usd_body_timestamp_only
     \<and> status_message (main_startup str_of w'') = Inl (KeyError ''date_fetched'')
     \<and> main_until_loop str_of w'' = Raises (KeyError ''date_fetched'')
     \<and> exit_code (main_until_loop str_of w'') = Some 1
     \<and> conversion_round str_of usd_body (''USD'', ''US Dollar'') amount (''EUR'', ''Euro'')
         = ConversionError (KeyError ''date_fetched'')"
proof -
  define w' where "w' = w\<lparr> db_file := Stored usd_body, http_get := (\<lambda>url. RequestException) \<rparr>"
  define w'' where "w'' = w\<lparr> db_file := Stored usd_body_timestamp_only,
                http_get := (\<lambda>url. RequestException),
                fromtimestamp := (\<lambda>v. Inr t) \<rparr>"
  have v: "validate_api_response str_of usd_body None = Inr (True, ''Data is valid'')"
    by (simp add: validate_api_response_def usd_body_def)
  have c: "py_contains usd_body ''timestamp'' = Inr False"
    "py_contains usd_body ''date_fetched'' = Inr False"
    by (simp_all add: usd_body_def)
  have l: "load_db str_of w' = Some usd_body"
    by (simp add: load_db_def w'_def v)
  have f: "fetch_rates str_of w' = (API_URLS, None)"
    by (simp add: fetch_rates_def API_URLS_def fetch_attempt_def w'_def)
  have fr: "fresh_data (main_startup str_of w') = None"
    by (simp add: main_startup_def Let_def f)
  have t: "truthy usd_body" by (simp add: usd_body_def)
  have r: "rates_data (main_startup str_of w') = Some usd_body"
    by (simp add: main_startup_def Let_def f l)
  have d: "days_since w' usd_body = Inl (KeyError ''timestamp'')"
    by (simp add: days_since_def usd_body_def)
  have s: "status_message (main_startup str_of w') = Inl (KeyError ''timestamp'')"
    by (simp add: main_startup_def Let_def f l display_status_message_def t d)
  have m: "main_until_loop str_of w' = Raises (KeyError ''timestamp'')"
    by (simp add: main_until_loop_def Let_def s)
  have v2: "validate_api_response str_of usd_body_timestamp_only None
              = Inr (True, ''Data is valid'')"
    by (simp add: validate_api_response_def usd_body_timestamp_only_def)
  have c2: "py_contains usd_body_timestamp_only ''date_fetched'' = Inr False"
    by (simp add: usd_body_timestamp_only_def)
  have l2: "load_db str_of w'' = Some usd_body_timestamp_only"
    by (simp add: load_db_def w''_def v2)
  have f2: "fetch_rates str_of w'' = (API_URLS, None)"
    by (simp add: fetch_rates_def API_URLS_def fetch_attempt_def w''_def)
  have t2: "truthy usd_body_timestamp_only" by (simp add: usd_body_timestamp_only_def)
  have r2: "rates_data (main_startup str_of w'') = Some usd_body_timestamp_only"
    by (simp add: main_startup_def Let_def f2 l2)
  have d2: "days_since w'' usd_body_timestamp_only = Inr ((local_now w'' - t) div 86400000000)"
    by (simp add: days_since_def usd_body_timestamp_only_def w''_def)
  have df: "date_fetched_text str_of usd_body_timestamp_only = Inl (KeyError ''date_fetched'')"
    by (simp add: date_fetched_text_def usd_body_timestamp_only_def)
  have s2: "status_message (main_startup str_of w'') = Inl (KeyError ''date_fetched'')"
    by (simp add: main_startup_def Let_def f2 l2 display_status_message_def t2 d2 df)
  have m2: "main_until_loop str_of w'' = Raises (KeyError ''date_fetched'')"
    by (simp add: main_until_loop_def Let_def s2)
  show ?thesis
    unfolding Let_def w'_def[symmetric] w''_def[symmetric]
    using v c l fr r s m c2 l2 r2 s2 m2 bare_store_round by simp
qed

end
